theory Spec2Isabelle
  imports Complex_Main "HOL-Library.Multiset"
begin

section \<open>The store\<close>

text \<open>
  The handlers of the repository talk to a relational store through an ORM. The store is
  modelled as a record of tables; a table is the list of its rows in insertion order
  together with the next value of its autoincrement column. Timestamps are the
  milliseconds that \<^verbatim>\<open>Date.getTime()\<close> returns. Column names follow the schema, prefixed
  by the name of the table.
\<close>

type_synonym time = int

record 'a table =
  rows :: "'a list"
  nextId :: int

datatype AccountType = DEFAULT | GOOGLE | FACEBOOK | APPLE

record User =
  user_id :: int
  user_fullname :: "string option"
  user_username :: "string option"
  user_imageUrl :: "string option"
  user_bio :: "string option"
  user_email :: string
  user_isEmailVerified :: bool
  user_hashedPassword :: "string option"
  user_provider :: AccountType
  user_createdAt :: time
  user_updatedAt :: time

text \<open>
  The three token tables share one shape. \<open>token_resolvedAt\<close> is the column
  \<^verbatim>\<open>activatedAt\<close>, \<^verbatim>\<open>resetAt\<close> or \<^verbatim>\<open>deleteAt\<close> of the table at hand.
\<close>

record Token =
  token_id :: int
  token_token :: string
  token_resolvedAt :: "time option"
  token_userId :: int
  token_createdAt :: time
  token_updatedAt :: time

record Blog =
  blog_id :: int
  blog_blogId :: string
  blog_title :: string
  blog_content :: string
  blog_imageUrl :: "string option"
  blog_draft :: bool
  blog_authorId :: int
  blog_createdAt :: time
  blog_updatedAt :: time

record Notification =
  notification_id :: int
  notification_userId :: int
  notification_blogId :: int
  notification_seen :: bool
  notification_createdAt :: time

record Searches =
  searches_id :: int
  searches_userId :: int
  searches_content :: string
  searches_createdAt :: time

record Follow =
  follow_id :: int
  follow_userId :: int
  follow_followerId :: int

record db =
  user :: "User table"
  activateToken :: "Token table"
  passwordResetToken :: "Token table"
  deleteToken :: "Token table"
  blog :: "Blog table"
  notification :: "Notification table"
  searches :: "Searches table"
  follow :: "Follow table"

text \<open>
  \<^verbatim>\<open>findFirst\<close> and \<^verbatim>\<open>findUnique\<close> return the first row that satisfies the filter, or
  null; \<^verbatim>\<open>findMany\<close> returns all of them.
\<close>

definition findFirst :: "('a \<Rightarrow> bool) \<Rightarrow> 'a table \<Rightarrow> 'a option" where
  "findFirst p t = find p (rows t)"

definition findMany :: "('a \<Rightarrow> bool) \<Rightarrow> 'a table \<Rightarrow> 'a list" where
  "findMany p t = filter p (rows t)"

text \<open>
  \<^verbatim>\<open>create\<close> appends the row built from the fresh autoincrement value and advances the
  counter; it returns the new row with the table.
\<close>

definition create :: "(int \<Rightarrow> 'a) \<Rightarrow> 'a table \<Rightarrow> 'a \<times> 'a table" where
  "create mk t = (mk (nextId t), \<lparr>rows = rows t @ [mk (nextId t)], nextId = nextId t + 1\<rparr>)"

text \<open>
  \<^verbatim>\<open>update\<close> and \<^verbatim>\<open>delete\<close> address one row by a unique column and throw when no row
  has it: the result is \<open>None\<close> then. \<^verbatim>\<open>update\<close> returns the changed row.
\<close>

definition update :: "('a \<Rightarrow> bool) \<Rightarrow> ('a \<Rightarrow> 'a) \<Rightarrow> 'a table \<Rightarrow> ('a \<times> 'a table) option" where
  "update p f t =
     (case find p (rows t) of
        None \<Rightarrow> None
      | Some r \<Rightarrow> Some (f r, t\<lparr>rows := map (\<lambda>x. if p x then f x else x) (rows t)\<rparr>))"

definition delete :: "('a \<Rightarrow> bool) \<Rightarrow> 'a table \<Rightarrow> ('a \<times> 'a table) option" where
  "delete p t =
     (case find p (rows t) of
        None \<Rightarrow> None
      | Some r \<Rightarrow> Some (r, t\<lparr>rows := filter (\<lambda>x. \<not> p x) (rows t)\<rparr>))"

section \<open>Responses\<close>

text \<open>
  A handler answers with a status and a body: \<^verbatim>\<open>res.status(n).send(text)\<close>,
  \<^verbatim>\<open>res.status(n).json(value)\<close>, or, from the \<^verbatim>\<open>catch\<close> block,
  \<^verbatim>\<open>res.status(500).send({ message: error.message })\<close>. A handler that logs a user in also
  sets the \<^verbatim>\<open>Authorization\<close> header.
\<close>

datatype 'a body = Send string | Message string | Json 'a

record 'a response =
  status :: nat
  body :: "'a body"
  authorization :: "string option"

definition reply :: "nat \<Rightarrow> 'a body \<Rightarrow> 'a response" where
  "reply n b = \<lparr>status = n, body = b, authorization = None\<rparr>"

text \<open>What a thrown store error carries as its message is the ORM's text.\<close>

definition prismaError :: string where
  "prismaError = ''PrismaClientKnownRequestError''"

section \<open>Follows\<close>

text \<open>
  \<^verbatim>\<open>followUser\<close> in \<^verbatim>\<open>controllers/userController.ts\<close>. \<open>me\<close> is \<^verbatim>\<open>req.user.id\<close>, set by
  the \<^verbatim>\<open>protect\<close> middleware; \<open>name\<close> is \<^verbatim>\<open>req.params.username\<close>.
\<close>

definition followUser :: "db \<Rightarrow> int \<Rightarrow> string \<Rightarrow> Follow response \<times> db" where
  "followUser d me name =
     (case findFirst (\<lambda>u. user_username u = Some name) (user d) of
        None \<Rightarrow> (reply 404 (Send ''Account not found''), d)
      | Some u \<Rightarrow>
          if user_id u = me then (reply 403 (Send ''You cannot follow yourself''), d)
          else
            (case findFirst (\<lambda>f. follow_userId f = user_id u \<and> follow_followerId f = me) (follow d) of
               Some f \<Rightarrow> (reply 400 (Send ''You already follow this account''), d)
             | None \<Rightarrow>
                 let (f, t) = create (\<lambda>i. \<lparr>follow_id = i, follow_userId = user_id u,
                                            follow_followerId = me\<rparr>) (follow d)
                 in (reply 200 (Json f), d\<lparr>follow := t\<rparr>)))"

section \<open>Collaborators\<close>

text \<open>
  The process environment, the password-hashing library, the mail transport and the
  web-token library are outside the repository. The handlers take them as parameters.
\<close>

record env =
  JWT_SECRET :: string
  NODEMAILER_SERVICE :: string
  NODEMAILER_EMAIL :: string
  NODEMAILER_PASSWORD :: string

text \<open>\<^verbatim>\<open>bcrypt.hash(password, 12)\<close> and \<^verbatim>\<open>bcrypt.compare(password, hash)\<close>.\<close>

record bcrypt =
  bcrypt_hash :: "string \<Rightarrow> nat \<Rightarrow> string"
  bcrypt_compare :: "string \<Rightarrow> string \<Rightarrow> bool"

text \<open>
  The three mails differ in their subject and in the link that their HTML embeds; the
  HTML is represented by its kind and that link.
\<close>

datatype html = VerifyHtml string | ResetHtml string | DeleteHtml string

record mailOptions =
  mail_from :: string
  mail_to :: string
  mail_subject :: string
  mail_html :: html

text \<open>
  The transport calls back with an error or with a response; \<open>Some m\<close> is an error
  with message \<open>m\<close>.
\<close>

type_synonym transporter = "string \<Rightarrow> string \<Rightarrow> string \<Rightarrow> mailOptions \<Rightarrow> string option"

text \<open>
  \<^verbatim>\<open>sendMail\<close> in \<^verbatim>\<open>lib/nodemailer.ts\<close>: the promise rejects with the transport's error,
  which the awaiting handler sees as an exception (\<open>Some m\<close>).
\<close>

definition sendMail :: "env \<Rightarrow> transporter \<Rightarrow> string \<Rightarrow> string \<Rightarrow> html \<Rightarrow> string option" where
  "sendMail e createTransport subject email html =
     (let transporter = createTransport (NODEMAILER_SERVICE e) (NODEMAILER_EMAIL e)
                          (NODEMAILER_PASSWORD e);
          mailOptions = \<lparr>mail_from = ''Post Room <'' @ NODEMAILER_EMAIL e @ ''>'',
                         mail_to = email, mail_subject = subject, mail_html = html\<rparr>
      in transporter mailOptions)"

text \<open>
  The web-token library. A token carries the signed payload and its signature;
  \<open>jwt_mac\<close> is the keyed signature of a payload, \<open>jwt_encode\<close> and \<open>jwt_decode\<close>
  are the compact serialisation. \<^verbatim>\<open>jwt.sign\<close> stamps the payload with the second of
  issue and the second of expiry; \<^verbatim>\<open>jwt.verify\<close> throws (\<open>None\<close>) on a token that
  does not parse, on a signature that is not the secret's, and from the second of
  expiry on.
\<close>

record JWTPayload =
  jwt_id :: int
  jwt_iat :: int
  jwt_exp :: int

record jsonwebtoken =
  jwt_mac :: "string \<Rightarrow> JWTPayload \<Rightarrow> string"
  jwt_encode :: "JWTPayload \<times> string \<Rightarrow> string"
  jwt_decode :: "string \<Rightarrow> (JWTPayload \<times> string) option"

definition jwt_sign :: "jsonwebtoken \<Rightarrow> time \<Rightarrow> int \<Rightarrow> string \<Rightarrow> int \<Rightarrow> string" where
  "jwt_sign jwt now ident secret expiresIn =
     (let iat = now div 1000;
          payload = \<lparr>jwt_id = ident, jwt_iat = iat, jwt_exp = iat + expiresIn\<rparr>
      in jwt_encode jwt (payload, jwt_mac jwt secret payload))"

definition jwt_verify :: "jsonwebtoken \<Rightarrow> time \<Rightarrow> string \<Rightarrow> string \<Rightarrow> JWTPayload option" where
  "jwt_verify jwt now token secret =
     (case jwt_decode jwt token of
        None \<Rightarrow> None
      | Some (payload, signature) \<Rightarrow>
          if signature \<noteq> jwt_mac jwt secret payload then None
          else if jwt_exp payload \<le> now div 1000 then None
          else Some payload)"

section \<open>Strings\<close>

text \<open>
  A \<open>string\<close> is the list of the code units of the source's string; the units of the
  model are those below 256. \<open>isSpace\<close> is the class \<^verbatim>\<open>\s\<close> and \<open>lineTerminator\<close> the
  complement of \<^verbatim>\<open>.\<close> on these units.
\<close>

definition isSpace :: "char \<Rightarrow> bool" where
  "isSpace c = (of_char c \<in> {9, 10, 11, 12, 13, 32, 160 :: nat})"

definition lineTerminator :: "char \<Rightarrow> bool" where
  "lineTerminator c = (of_char c \<in> {10, 13 :: nat})"

definition emailChar :: "char \<Rightarrow> bool" where
  "emailChar c = (\<not> isSpace c \<and> c \<noteq> CHR ''@'')"

text \<open>
  \<^verbatim>\<open>/^[^\s@]+@[^\s@]+\.[^\s@]+$/.test(s)\<close>: a non-empty run of characters that are neither
  blank nor at-signs, one at-sign, and a rest of such characters that has a dot with at least
  one character on either side.
\<close>

definition emailRegex_test :: "string \<Rightarrow> bool" where
  "emailRegex_test s =
     (takeWhile emailChar s \<noteq> [] \<and>
      (case dropWhile emailChar s of
         [] \<Rightarrow> False
       | c # r \<Rightarrow> c = CHR ''@'' \<and> list_all emailChar r \<and> CHR ''.'' \<in> set (butlast (tl r))))"

definition isLetter :: "char \<Rightarrow> bool" where
  "isLetter c = ((97 \<le> (of_char c :: nat) \<and> (of_char c :: nat) \<le> 122) \<or>
                 (65 \<le> (of_char c :: nat) \<and> (of_char c :: nat) \<le> 90))"

definition isDigit :: "char \<Rightarrow> bool" where
  "isDigit c = (48 \<le> (of_char c :: nat) \<and> (of_char c :: nat) \<le> 57)"

definition isSpecial :: "char \<Rightarrow> bool" where
  "isSpecial c = (c \<in> set (''!@#$%^&*(),.?'' @ [char_of (34 :: nat)] @ '':{}|<>''))"

text \<open>
  \<^verbatim>\<open>/^(?=.*[a-zA-Z])(?=.*[0-9])(?=.*[!@#$%^&*(),.?":{}|<>]).{8,}$/.test(s)\<close>: eight or more
  characters, none a line terminator, with a letter, a digit and a special character among
  them.
\<close>

definition passwordRegex_test :: "string \<Rightarrow> bool" where
  "passwordRegex_test s =
     (list_ex isLetter s \<and> list_ex isDigit s \<and> list_ex isSpecial s \<and>
      8 \<le> length s \<and> list_all (\<lambda>c. \<not> lineTerminator c) s)"

definition startsWith :: "string \<Rightarrow> string \<Rightarrow> bool" where
  "startsWith s p = (take (length p) s = p)"

text \<open>\<^verbatim>\<open>s.split(c)\<close> for a one-character separator.\<close>

fun js_split :: "char \<Rightarrow> string \<Rightarrow> string list" where
  "js_split c [] = [[]]"
| "js_split c (x # xs) =
     (if x = c then [] # js_split c xs
      else (case js_split c xs of [] \<Rightarrow> [[x]] | w # ws \<Rightarrow> (x # w) # ws))"

text \<open>
  \<^verbatim>\<open>crypto.randomUUID().replace(/-/g, "") + crypto.randomUUID().replace(/-/g, "")\<close>, from the
  two identifiers that the random source hands out.
\<close>

definition tokenString :: "string \<times> string \<Rightarrow> string" where
  "tokenString uuids =
     filter (\<lambda>c. c \<noteq> CHR ''-'') (fst uuids) @ filter (\<lambda>c. c \<noteq> CHR ''-'') (snd uuids)"

text \<open>A template literal prints an absent \<^verbatim>\<open>Origin\<close> header as \<^verbatim>\<open>undefined\<close>.\<close>

definition template :: "string option \<Rightarrow> string" where
  "template v = (case v of None \<Rightarrow> ''undefined'' | Some s \<Rightarrow> s)"

section \<open>Sessions\<close>

text \<open>\<^verbatim>\<open>generateToken\<close>: \<^verbatim>\<open>jwt.sign({ id }, process.env.JWT_SECRET, { expiresIn: "30d" })\<close>.\<close>

definition generateToken :: "jsonwebtoken \<Rightarrow> env \<Rightarrow> time \<Rightarrow> int \<Rightarrow> string" where
  "generateToken jwt e now ident = jwt_sign jwt now ident (JWT_SECRET e) (30 * 24 * 60 * 60)"

text \<open>
  \<^verbatim>\<open>protect\<close> in \<^verbatim>\<open>middleware/authMiddleware.ts\<close>. \<open>Inr u\<close> stands for \<^verbatim>\<open>req.user = u; next()\<close>,
  \<open>Inl r\<close> for the response that ends the request. The token is the second piece of the
  header; without one \<^verbatim>\<open>jwt.verify\<close> throws.
\<close>

definition protect :: "jsonwebtoken \<Rightarrow> env \<Rightarrow> db \<Rightarrow> time \<Rightarrow> string option \<Rightarrow> unit response + User" where
  "protect jwt e d now header =
     (case header of
        None \<Rightarrow> Inl (reply 401 (Send ''Unauthorized, no token''))
      | Some h \<Rightarrow>
          if startsWith h ''Bearer'' then
            (case js_split CHR '' '' h of
               _ # token # _ \<Rightarrow>
                 (case jwt_verify jwt now token (JWT_SECRET e) of
                    None \<Rightarrow> Inl (reply 401 (Send ''Unauthorized''))
                  | Some decoded \<Rightarrow>
                      (case findFirst (\<lambda>u. user_id u = jwt_id decoded) (user d) of
                         None \<Rightarrow> Inl (reply 401 (Send ''Unauthorized''))
                       | Some u \<Rightarrow> Inr u))
             | _ \<Rightarrow> Inl (reply 401 (Send ''Unauthorized'')))
          else Inl (reply 401 (Send ''Unauthorized, no token'')))"

text \<open>
  \<^verbatim>\<open>loginUser\<close>. A field of the request body that is absent and one that is the empty
  string take the same branch of \<^verbatim>\<open>!email || !password\<close>; both are the empty string here.
  Likewise \<^verbatim>\<open>!user.hashedPassword\<close> holds of a null column and of an empty one.
\<close>

definition loginUser ::
  "jsonwebtoken \<Rightarrow> env \<Rightarrow> bcrypt \<Rightarrow> db \<Rightarrow> time \<Rightarrow> string \<Rightarrow> string \<Rightarrow> User response" where
  "loginUser jwt e bc d now email password =
     (if email = [] \<or> password = [] then reply 400 (Send ''Missing required fields'')
      else if \<not> emailRegex_test email then reply 422 (Send ''Invalid email format'')
      else
        (case findFirst (\<lambda>u. user_email u = email) (user d) of
           None \<Rightarrow> reply 400 (Send ''Incorrect email or password'')
         | Some u \<Rightarrow>
             if user_provider u \<noteq> DEFAULT \<or> user_hashedPassword u \<in> {None, Some []} then
               reply 400 (Send ''Account signed up using a provider'')
             else if \<not> bcrypt_compare bc password (the (user_hashedPassword u)) then
               reply 400 (Send ''Incorrect email or password'')
             else
               \<lparr>status = 200, body = Json u,
                authorization = Some (''Bearer '' @ generateToken jwt e now (user_id u))\<rparr>))"

section \<open>Single-use tokens\<close>

text \<open>
  \<^verbatim>\<open>db.<table>.create({ data: { token, userId } })\<close> on one of the token tables. The token
  column is unique: the create throws (\<open>None\<close>) when the string is already stored. The
  insert that fails has drawn its autoincrement value all the same, so the counter advances
  either way.
\<close>

definition createToken :: "time \<Rightarrow> string \<Rightarrow> int \<Rightarrow> Token table \<Rightarrow> Token option \<times> Token table" where
  "createToken now s uid t =
     (if findFirst (\<lambda>x. token_token x = s) t \<noteq> None then (None, t\<lparr>nextId := nextId t + 1\<rparr>)
      else
        let (r, t') = create (\<lambda>i. \<lparr>token_id = i, token_token = s, token_resolvedAt = None,
                                    token_userId = uid, token_createdAt = now,
                                    token_updatedAt = now\<rparr>) t
        in (Some r, t'))"

text \<open>
  \<^verbatim>\<open>registerUser\<close>. \<open>origin\<close> is \<^verbatim>\<open>req.headers.origin\<close>, \<open>uuids\<close> the two random
  identifiers of this request. A create never returns null, so the branch \<^verbatim>\<open>if (!newUser)\<close>
  of the source is never taken and has no counterpart here; the same holds of
  \<^verbatim>\<open>if (!passwordReset)\<close> in \<^verbatim>\<open>resetPasswordRequest\<close>. Whatever the handler throws is
  answered by its \<^verbatim>\<open>catch\<close> block with status 500, without undoing the writes made so far.
\<close>

definition registerUser ::
  "jsonwebtoken \<Rightarrow> env \<Rightarrow> bcrypt \<Rightarrow> transporter \<Rightarrow> db \<Rightarrow> time \<Rightarrow> string option \<Rightarrow> string \<times> string
     \<Rightarrow> string \<Rightarrow> string \<Rightarrow> User response \<times> db" where
  "registerUser jwt e bc createTransport d now origin uuids email password =
     (if email = [] \<or> password = [] then (reply 400 (Send ''Missing required fields''), d)
      else if \<not> emailRegex_test email then (reply 422 (Send ''Invalid email format''), d)
      else if findFirst (\<lambda>u. user_email u = email) (user d) \<noteq> None then
        (reply 400 (Send ''User already exists''), d)
      else if \<not> passwordRegex_test password then
        (reply 422 (Send ''Password does not meet security requirments''), d)
      else
        let hashedPassword = bcrypt_hash bc password 12;
            (newUser, ut) = create (\<lambda>i. \<lparr>user_id = i, user_fullname = None, user_username = None,
                                          user_imageUrl = None, user_bio = None, user_email = email,
                                          user_isEmailVerified = False,
                                          user_hashedPassword = Some hashedPassword,
                                          user_provider = DEFAULT, user_createdAt = now,
                                          user_updatedAt = now\<rparr>) (user d);
            d1 = d\<lparr>user := ut\<rparr>
        in
          let (created, tt) = createToken now (tokenString uuids) (user_id newUser)
                                (activateToken d1);
              d2 = d1\<lparr>activateToken := tt\<rparr>
          in
          (case created of
             None \<Rightarrow> (reply 500 (Message prismaError), d2)
           | Some authToken \<Rightarrow>
               let activateUrl = template origin @ ''/activate/'' @ token_token authToken
               in
                 (case sendMail e createTransport ''Verify your Post Room account email''
                         (user_email newUser) (VerifyHtml activateUrl) of
                    Some err \<Rightarrow> (reply 500 (Message err), d2)
                  | None \<Rightarrow>
                      (\<lparr>status = 201, body = Json newUser,
                        authorization =
                          Some (''Bearer '' @ generateToken jwt e now (user_id newUser))\<rparr>, d2))))"

text \<open>\<^verbatim>\<open>activateAccount\<close>. \<open>tok\<close> is \<^verbatim>\<open>req.params.token\<close>.\<close>

definition activateAccount :: "db \<Rightarrow> time \<Rightarrow> string \<Rightarrow> User response \<times> db" where
  "activateAccount d now tok =
     (case findFirst (\<lambda>t. token_token t = tok) (activateToken d) of
        None \<Rightarrow> (reply 400 (Send ''Token not valid''), d)
      | Some token \<Rightarrow>
          (case findFirst (\<lambda>u. user_id u = token_userId token \<and> user_isEmailVerified u) (user d) of
             Some isUserVerified \<Rightarrow> (reply 400 (Send ''Email is already verified''), d)
           | None \<Rightarrow>
               (case update (\<lambda>u. user_id u = token_userId token)
                       (\<lambda>u. u\<lparr>user_isEmailVerified := True, user_updatedAt := now\<rparr>) (user d) of
                  None \<Rightarrow> (reply 500 (Message prismaError), d)
                | Some (u, ut) \<Rightarrow> (reply 200 (Json u), d\<lparr>user := ut\<rparr>))))"

text \<open>\<^verbatim>\<open>resetPasswordRequest\<close>.\<close>

definition resetPasswordRequest ::
  "env \<Rightarrow> transporter \<Rightarrow> db \<Rightarrow> time \<Rightarrow> string option \<Rightarrow> string \<times> string \<Rightarrow> string
     \<Rightarrow> unit response \<times> db" where
  "resetPasswordRequest e createTransport d now origin uuids email =
     (if email = [] then (reply 400 (Send ''Missing email address''), d)
      else if \<not> emailRegex_test email then (reply 422 (Send ''Invalid email format''), d)
      else
        (case findFirst (\<lambda>u. user_email u = email) (user d) of
           None \<Rightarrow> (reply 404 (Send ''Email cannot be found or signed in using a provider''), d)
         | Some doesUserExist \<Rightarrow>
             if user_provider doesUserExist \<noteq> DEFAULT then
               (reply 404 (Send ''Email cannot be found or signed in using a provider''), d)
             else
               let (created, tt) = createToken now (tokenString uuids) (user_id doesUserExist)
                                     (passwordResetToken d);
                   d1 = d\<lparr>passwordResetToken := tt\<rparr>
               in
               (case created of
                  None \<Rightarrow> (reply 500 (Message prismaError), d1)
                | Some passwordReset \<Rightarrow>
                    let passwordResetUrl =
                          template origin @ ''/reset-password/'' @ token_token passwordReset
                    in
                      (case sendMail e createTransport
                              ''Password reset request for Post Room account''
                              (user_email doesUserExist) (ResetHtml passwordResetUrl) of
                         Some err \<Rightarrow> (reply 500 (Message err), d1)
                       | None \<Rightarrow> (reply 200 (Send ''Password reset link sent to email''), d1)))))"

text \<open>
  \<^verbatim>\<open>resetAccountPassword\<close>. The age of the token is the difference of the two
  \<^verbatim>\<open>getTime()\<close> values, divided into hours. The source divides in double precision; for
  a difference in whole milliseconds that quotient is above 24 exactly when the exact one is,
  so the model divides exactly. One clock reading \<open>now\<close> stands for the \<^verbatim>\<open>new Date()\<close>
  calls of one request.
\<close>

definition resetAccountPassword :: "bcrypt \<Rightarrow> db \<Rightarrow> time \<Rightarrow> string \<Rightarrow> string \<Rightarrow> User response \<times> db" where
  "resetAccountPassword bc d now tok password =
     (if password = [] then (reply 400 (Send ''Missing new password''), d)
      else
        (case findFirst (\<lambda>t. token_token t = tok) (passwordResetToken d) of
           None \<Rightarrow> (reply 400 (Send ''Token expired or not valid''), d)
         | Some token \<Rightarrow>
             if real_of_int (now - token_createdAt token) / (1000 * 3600) > 24 then
               (reply 400 (Send ''Token expired or not valid''), d)
             else if \<not> passwordRegex_test password then
               (reply 422 (Send ''Password does not meet security requirments''), d)
             else
               let hashedPassword = bcrypt_hash bc password 12 in
                 (case update (\<lambda>u. user_id u = token_userId token)
                         (\<lambda>u. u\<lparr>user_hashedPassword := Some hashedPassword,
                                user_updatedAt := now\<rparr>) (user d) of
                    None \<Rightarrow> (reply 500 (Message prismaError), d)
                  | Some (u, ut) \<Rightarrow>
                      (case update (\<lambda>t. token_id t = token_id token)
                              (\<lambda>t. t\<lparr>token_resolvedAt := Some now, token_updatedAt := now\<rparr>)
                              (passwordResetToken d) of
                         None \<Rightarrow> (reply 500 (Message prismaError), d\<lparr>user := ut\<rparr>)
                       | Some (t, tt) \<Rightarrow>
                           (reply 200 (Json u), d\<lparr>user := ut, passwordResetToken := tt\<rparr>)))))"

text \<open>\<^verbatim>\<open>sendAccountDeleteEmail\<close>. \<open>me\<close> and \<open>email\<close> are \<^verbatim>\<open>req.user.id\<close> and \<^verbatim>\<open>req.user.email\<close>.\<close>

definition sendAccountDeleteEmail ::
  "env \<Rightarrow> transporter \<Rightarrow> db \<Rightarrow> time \<Rightarrow> string \<times> string \<Rightarrow> int \<Rightarrow> string \<Rightarrow> unit response \<times> db" where
  "sendAccountDeleteEmail e createTransport d now uuids me email =
     (let (created, tt) = createToken now (tokenString uuids) me (deleteToken d);
          d1 = d\<lparr>deleteToken := tt\<rparr>
      in
      case created of
        None \<Rightarrow> (reply 500 (Message prismaError), d1)
      | Some deleteTokenRow \<Rightarrow>
          let confirmDeletionUrl =
                ''http://localhost:3000/delete-account/'' @ token_token deleteTokenRow
          in
            (case sendMail e createTransport ''Account delete confirmation for Post Room account''
                    email (DeleteHtml confirmDeletionUrl) of
               Some err \<Rightarrow> (reply 500 (Message err), d1)
             | None \<Rightarrow> (reply 200 (Send ''email sent''), d1)))"

text \<open>
  \<^verbatim>\<open>db.user.delete\<close> by id. The Prisma schema of the repository names, for each relation
  to \<^verbatim>\<open>User\<close>, what deleting the user does to the rows that reference it. The activation
  and the reset tokens, the notifications, the searches and the follows say
  \<^verbatim>\<open>onDelete: Cascade\<close>: they go with the user. The deletion tokens (the model
  \<^verbatim>\<open>AccountDeleteToken\<close>, which the controller addresses as \<^verbatim>\<open>db.deleteToken\<close>) and the blogs
  (\<^verbatim>\<open>Blog.author\<close>) name no action, which for a required relation is the ORM's \<^verbatim>\<open>Restrict\<close>: the
  store refuses to delete a user that one of them references, and the delete throws
  (\<open>None\<close>), as it does when the user is not stored.
\<close>

definition user_delete :: "int \<Rightarrow> db \<Rightarrow> db option" where
  "user_delete uid d =
     (case delete (\<lambda>u. user_id u = uid) (user d) of
        None \<Rightarrow> None
      | Some (u, ut) \<Rightarrow>
          if findFirst (\<lambda>t. token_userId t = uid) (deleteToken d) \<noteq> None
             \<or> findFirst (\<lambda>b. blog_authorId b = uid) (blog d) \<noteq> None
          then None
          else
            Some (d\<lparr>user := ut,
                    activateToken := (activateToken d)
                      \<lparr>rows := filter (\<lambda>t. token_userId t \<noteq> uid) (rows (activateToken d))\<rparr>,
                    passwordResetToken := (passwordResetToken d)
                      \<lparr>rows := filter (\<lambda>t. token_userId t \<noteq> uid)
                                 (rows (passwordResetToken d))\<rparr>,
                    notification := (notification d)
                      \<lparr>rows := filter (\<lambda>n. notification_userId n \<noteq> uid)
                                 (rows (notification d))\<rparr>,
                    searches := (searches d)
                      \<lparr>rows := filter (\<lambda>s. searches_userId s \<noteq> uid) (rows (searches d))\<rparr>,
                    follow := (follow d)
                      \<lparr>rows := filter (\<lambda>f. follow_userId f \<noteq> uid \<and> follow_followerId f \<noteq> uid)
                                 (rows (follow d))\<rparr>\<rparr>))"

text \<open>
  \<^verbatim>\<open>deleteUser\<close>. \<open>me\<close> is \<^verbatim>\<open>req.user.id\<close>, \<open>tok\<close> is \<^verbatim>\<open>req.params.token\<close>. The
  comparison of the two dates is the comparison of their milliseconds.
\<close>

definition deleteUser :: "db \<Rightarrow> time \<Rightarrow> int \<Rightarrow> string \<Rightarrow> unit response \<times> db" where
  "deleteUser d now me tok =
     (case findFirst (\<lambda>t. token_token t = tok) (deleteToken d) of
        None \<Rightarrow> (reply 404 (Send ''Token not found''), d)
      | Some deleteTokenRow \<Rightarrow>
          if token_createdAt deleteTokenRow < now - 24 * 60 * 60 * 1000 then
            (reply 400 (Send ''Token is expired''), d)
          else if token_userId deleteTokenRow \<noteq> me then (reply 403 (Send ''Forbidden''), d)
          else
            (case user_delete (token_userId deleteTokenRow) d of
               None \<Rightarrow> (reply 500 (Message prismaError), d)
             | Some d' \<Rightarrow> (reply 200 (Message ''account deleted''), d')))"

section \<open>Publishing\<close>

text \<open>
  The loop of \<^verbatim>\<open>publishBlog\<close> over the followers: one \<^verbatim>\<open>db.notification.create\<close> for each,
  with the defaults of the schema (\<^verbatim>\<open>seen\<close> false, \<^verbatim>\<open>createdAt\<close> now).
\<close>

fun notifyFollowers :: "time \<Rightarrow> int \<Rightarrow> Follow list \<Rightarrow> Notification table \<Rightarrow> Notification table" where
  "notifyFollowers now bid [] t = t"
| "notifyFollowers now bid (f # fs) t =
     notifyFollowers now bid fs
       (snd (create (\<lambda>i. \<lparr>notification_id = i, notification_userId = follow_followerId f,
                          notification_blogId = bid, notification_seen = False,
                          notification_createdAt = now\<rparr>) t))"

text \<open>
  \<^verbatim>\<open>publishBlog\<close> in \<^verbatim>\<open>controllers/blogController.ts\<close>. \<open>me\<close> is \<^verbatim>\<open>req.user.id\<close>, \<open>blogId\<close>
  is \<^verbatim>\<open>req.params.id\<close>. The body of the answer is the published row (the answer leaves its
  \<^verbatim>\<open>draft\<close> column out).
\<close>

definition publishBlog :: "db \<Rightarrow> time \<Rightarrow> int \<Rightarrow> string \<Rightarrow> Blog response \<times> db" where
  "publishBlog d now me blogId =
     (case findFirst (\<lambda>b. blog_blogId b = blogId \<and> blog_draft b) (blog d) of
        None \<Rightarrow> (reply 404 (Send ''Blog not found''), d)
      | Some b \<Rightarrow>
          if blog_authorId b \<noteq> me then (reply 403 (Send ''Forbidden''), d)
          else if blog_title b = [] \<or> blog_content b = [] then
            (reply 400 (Send ''Blog title and content cannot be empty''), d)
          else
            (case update (\<lambda>x. blog_blogId x = blogId)
                    (\<lambda>x. x\<lparr>blog_draft := False, blog_updatedAt := now\<rparr>) (blog d) of
               None \<Rightarrow> (reply 500 (Message prismaError), d)
             | Some (publishedBlog, bt) \<Rightarrow>
                 let followers = findMany (\<lambda>f. follow_userId f = blog_authorId b) (follow d);
                     nt = (if length followers > 0
                           then notifyFollowers now (blog_id b) followers (notification d)
                           else notification d)
                 in (reply 200 (Json publishedBlog), d\<lparr>blog := bt, notification := nt\<rparr>)))"

section \<open>Recent searches\<close>

text \<open>
  The loop of \<^verbatim>\<open>searchBlogs\<close> over the searches to drop: one \<^verbatim>\<open>db.searches.delete\<close> by id
  for each. A delete that throws ends the loop; the flag tells whether all went through.
\<close>

fun deleteSearches :: "Searches list \<Rightarrow> Searches table \<Rightarrow> bool \<times> Searches table" where
  "deleteSearches [] t = (True, t)"
| "deleteSearches (s # ss) t =
     (case delete (\<lambda>x. searches_id x = searches_id s) t of
        None \<Rightarrow> (False, t)
      | Some (r, t') \<Rightarrow> deleteSearches ss t')"

text \<open>
  \<^verbatim>\<open>searchBlogs\<close> in \<^verbatim>\<open>controllers/blogController.ts\<close>. \<open>me\<close> is \<^verbatim>\<open>req.user.id\<close>, \<open>query\<close>
  is \<^verbatim>\<open>req.query.query\<close> (absent and empty take the same branch), \<open>found\<close> is what the
  query for the blogs returns (with its paging), which writes nothing. \<open>orderBy\<close> is the
  order in which the store hands out the rows of \<^verbatim>\<open>orderBy: { createdAt: "desc" }\<close>; how it
  orders rows of equal time is the store's choice.
\<close>

definition searchBlogs ::
  "(Searches list \<Rightarrow> Searches list) \<Rightarrow> db \<Rightarrow> time \<Rightarrow> int \<Rightarrow> string \<Rightarrow> 'b \<Rightarrow> 'b response \<times> db" where
  "searchBlogs orderBy d now me query found =
     (if query = [] then (reply 400 (Send ''Please provide a search query''), d)
      else
        let recentSearches = orderBy (findMany (\<lambda>s. searches_userId s = me) (searches d));
            (ok, t1) = (if length recentSearches \<ge> 5
                        then deleteSearches (drop 4 recentSearches) (searches d)
                        else (True, searches d))
        in
          if \<not> ok then (reply 500 (Message prismaError), d\<lparr>searches := t1\<rparr>)
          else
            let isSearchDuplicated =
                  findFirst (\<lambda>s. searches_content s = query \<and> searches_userId s = me) t1;
                (new, t2) = create (\<lambda>i. \<lparr>searches_id = i, searches_userId = me,
                                          searches_content = query,
                                          searches_createdAt = now\<rparr>) t1
            in
              (case isSearchDuplicated of
                 None \<Rightarrow> (reply 200 (Json found), d\<lparr>searches := t2\<rparr>)
               | Some dup \<Rightarrow>
                   (case delete (\<lambda>x. searches_id x = searches_id dup) t2 of
                      None \<Rightarrow> (reply 500 (Message prismaError), d\<lparr>searches := t2\<rparr>)
                    | Some (r, t3) \<Rightarrow> (reply 200 (Json found), d\<lparr>searches := t3\<rparr>))))"

text \<open>
  What the store guarantees of that order: the rows handed out are the rows asked for, each
  as often as it is stored, and no row comes before a row created later.
\<close>

definition createdAtDesc :: "(Searches list \<Rightarrow> Searches list) \<Rightarrow> Searches list \<Rightarrow> bool" where
  "createdAtDesc orderBy xs =
     (mset (orderBy xs) = mset xs \<and>
      sorted_wrt (\<lambda>a b. searches_createdAt b \<le> searches_createdAt a) (orderBy xs))"

section \<open>Example stores\<close>

definition emptyTable :: "'a table" where
  "emptyTable = \<lparr>rows = [], nextId = 1\<rparr>"

definition emptyDb :: db where
  "emptyDb = \<lparr>user = emptyTable, activateToken = emptyTable, passwordResetToken = emptyTable,
               deleteToken = emptyTable, blog = emptyTable, notification = emptyTable,
               searches = emptyTable, follow = emptyTable\<rparr>"

text \<open>An unverified account with a password, created at time 0.\<close>

definition exUser :: "int \<Rightarrow> string \<Rightarrow> string \<Rightarrow> User" where
  "exUser i name mail =
     \<lparr>user_id = i, user_fullname = None, user_username = Some name, user_imageUrl = None,
      user_bio = None, user_email = mail, user_isEmailVerified = False,
      user_hashedPassword = Some ''h:Passw0rd!'', user_provider = DEFAULT,
      user_createdAt = 0, user_updatedAt = 0\<rparr>"

definition alice :: User where
  "alice = exUser 1 ''alice'' ''alice@example.com''"

definition bob :: User where
  "bob = exUser 2 ''bob'' ''bob@example.com''"

definition exPeople :: db where
  "exPeople = emptyDb\<lparr>user := \<lparr>rows = [alice, bob], nextId = 3\<rparr>\<rparr>"

definition carol :: User where
  "carol = (exUser 3 ''carol'' ''carol@example.com'')
             \<lparr>user_hashedPassword := None, user_provider := GOOGLE\<rparr>"

definition dave :: User where
  "dave = exUser 4 ''dave'' ''dave@example.com''"

text \<open>
  Bob's draft, a draft of his without a title, and his three followers Alice, Carol and
  Dave; Bob follows Alice.
\<close>

definition exDraft :: Blog where
  "exDraft = \<lparr>blog_id = 7, blog_blogId = ''p0st'', blog_title = ''Hello'', blog_content = ''World'',
              blog_imageUrl = None, blog_draft = True, blog_authorId = 2, blog_createdAt = 0,
              blog_updatedAt = 0\<rparr>"

definition exUntitled :: Blog where
  "exUntitled = exDraft\<lparr>blog_id := 8, blog_blogId := ''n0title'', blog_title := []\<rparr>"

definition exBlogs :: db where
  "exBlogs = emptyDb
     \<lparr>user := \<lparr>rows = [alice, bob, carol, dave], nextId = 5\<rparr>,
      blog := \<lparr>rows = [exDraft, exUntitled], nextId = 9\<rparr>,
      follow := \<lparr>rows = [\<lparr>follow_id = 1, follow_userId = 2, follow_followerId = 1\<rparr>,
                         \<lparr>follow_id = 2, follow_userId = 2, follow_followerId = 3\<rparr>,
                         \<lparr>follow_id = 3, follow_userId = 1, follow_followerId = 2\<rparr>,
                         \<lparr>follow_id = 4, follow_userId = 2, follow_followerId = 4\<rparr>],
                 nextId = 5\<rparr>\<rparr>"

text \<open>One token of each kind for Alice, created at time 0, and a stand-in for the hashing library.\<close>

definition exToken :: "string \<Rightarrow> Token" where
  "exToken s = \<lparr>token_id = 1, token_token = s, token_resolvedAt = None, token_userId = 1,
                token_createdAt = 0, token_updatedAt = 0\<rparr>"

definition exTokens :: db where
  "exTokens = exPeople
     \<lparr>activateToken := \<lparr>rows = [exToken ''actA''], nextId = 2\<rparr>,
      passwordResetToken := \<lparr>rows = [exToken ''rstA''], nextId = 2\<rparr>,
      deleteToken := \<lparr>rows = [exToken ''delA''], nextId = 2\<rparr>\<rparr>"

definition exBcrypt :: bcrypt where
  "exBcrypt = \<lparr>bcrypt_hash = (\<lambda>p n. ''h:'' @ p), bcrypt_compare = (\<lambda>p h. h = ''h:'' @ p)\<rparr>"

text \<open>
  An environment, a stand-in for the web-token library that knows three tokens, and a
  transport that is down. Carol is the account that signed up through a provider.
\<close>

definition exEnv :: env where
  "exEnv = \<lparr>JWT_SECRET = ''s3cret'', NODEMAILER_SERVICE = ''smtp'',
            NODEMAILER_EMAIL = ''post@room.io'', NODEMAILER_PASSWORD = ''pw''\<rparr>"

definition exPayload :: "int \<Rightarrow> JWTPayload" where
  "exPayload i = \<lparr>jwt_id = i, jwt_iat = 0, jwt_exp = 2592000\<rparr>"

definition exJwt :: jsonwebtoken where
  "exJwt = \<lparr>jwt_mac = (\<lambda>secret payload. secret),
            jwt_encode = (\<lambda>x. ''t1''),
            jwt_decode = (\<lambda>t. if t = ''t1'' then Some (exPayload 1, ''s3cret'')
                               else if t = ''t9'' then Some (exPayload 9, ''s3cret'')
                               else if t = ''forged'' then Some (exPayload 1, ''guess'')
                               else None)\<rparr>"

definition exDown :: transporter where
  "exDown = (\<lambda>service user pass mailOptions. Some ''ECONNREFUSED'')"

text \<open>A transport that delivers to everyone but \<^verbatim>\<open>erin@example.com\<close>.\<close>

definition exBounce :: transporter where
  "exBounce = (\<lambda>service user pass mailOptions.
                 if mail_to mailOptions = ''erin@example.com''
                 then Some ''550 mailbox unavailable'' else None)"

definition exAccounts :: db where
  "exAccounts = emptyDb\<lparr>user := \<lparr>rows = [alice, carol], nextId = 4\<rparr>\<rparr>"

text \<open>
  Six recent searches of Alice, one of them for \<open>q5\<close>, and one search of Bob; the order of
  the example is the stable sort by falling creation time.
\<close>

definition exSearch :: "int \<Rightarrow> int \<Rightarrow> string \<Rightarrow> time \<Rightarrow> Searches" where
  "exSearch i u q t = \<lparr>searches_id = i, searches_userId = u, searches_content = q,
                        searches_createdAt = t\<rparr>"

definition exSearches :: db where
  "exSearches = exPeople
     \<lparr>searches := \<lparr>rows = [exSearch 1 1 ''q1'' 10, exSearch 2 1 ''q2'' 20, exSearch 3 1 ''q3'' 30,
                            exSearch 4 2 ''q5'' 35, exSearch 5 1 ''q4'' 40, exSearch 6 1 ''q5'' 50,
                            exSearch 7 1 ''q6'' 60],
                    nextId = 8\<rparr>\<rparr>"

definition exOrder :: "Searches list \<Rightarrow> Searches list" where
  "exOrder = sort_key (\<lambda>s. - searches_createdAt s)"

section \<open>Lemmas on the store\<close>

lemma find_append_new:
  "find p xs = None \<Longrightarrow> p x \<Longrightarrow> find p (xs @ [x]) = Some x"
  by (induction xs) (auto split: if_splits)

lemma find_SomeD: "find p xs = Some x \<Longrightarrow> p x \<and> x \<in> set xs"
  by (induction xs) (auto split: if_splits)

lemma find_exists: "x \<in> set xs \<Longrightarrow> q x \<Longrightarrow> \<exists>c. find q xs = Some c"
  by (induction xs) auto

lemma find_weaken:
  "find p xs = Some b \<Longrightarrow> (\<And>x. p x \<Longrightarrow> q x) \<Longrightarrow> \<exists>c. find q xs = Some c"
  by (induction xs) (auto split: if_splits)

lemma delete_rows:
  "delete p t = Some (r, t') \<Longrightarrow> rows t' = filter (\<lambda>x. \<not> p x) (rows t) \<and> nextId t' = nextId t"
  by (auto simp: delete_def split: option.splits)

lemma find_filter_conj: "find (\<lambda>s. P s \<and> Q s) xs = find P (filter Q xs)"
  by (induction xs) auto

section \<open>The email pattern\<close>

text \<open>
  \<open>emailRegex_test\<close> accepts the language of the pattern: the strings that split into a
  non-empty local part, an at-sign, and two non-empty parts around a dot, all of characters
  that are neither blank nor at-signs.
\<close>

lemma emailChar_at: "\<not> emailChar CHR ''@''"
  by (simp add: emailChar_def)

lemma emailRegex_test_iff:
  "emailRegex_test s \<longleftrightarrow>
     (\<exists>a b c. s = a @ CHR ''@'' # b @ CHR ''.'' # c \<and> a \<noteq> [] \<and> b \<noteq> [] \<and> c \<noteq> []
              \<and> list_all emailChar a \<and> list_all emailChar b \<and> list_all emailChar c)"
proof
  assume t: "emailRegex_test s"
  let ?a = "takeWhile emailChar s"
  from t obtain r where r: "dropWhile emailChar s = CHR ''@'' # r" "list_all emailChar r"
      "CHR ''.'' \<in> set (butlast (tl r))" and a: "?a \<noteq> []"
    by (auto simp: emailRegex_test_def split: list.splits)
  from r(3) obtain u v where uv: "butlast (tl r) = u @ CHR ''.'' # v"
    by (auto dest: split_list)
  then have "tl r \<noteq> []" by auto
  then have tl: "tl r = (u @ CHR ''.'' # v) @ [last (tl r)]"
    using uv by (metis append_butlast_last_id)
  from \<open>tl r \<noteq> []\<close> have "r \<noteq> []" by auto
  then have rr: "r = (hd r # u) @ CHR ''.'' # (v @ [last (tl r)])"
    using tl by (metis append_Cons append_assoc list.collapse)
  have s: "s = ?a @ CHR ''@'' # (hd r # u) @ CHR ''.'' # (v @ [last (tl r)])"
    using r(1) rr by (metis takeWhile_dropWhile_id)
  have la: "list_all emailChar ?a"
    by (simp add: list_all_iff) (meson set_takeWhileD)
  from r(2) have "list_all emailChar ((hd r # u) @ CHR ''.'' # (v @ [last (tl r)]))"
    using rr by simp
  then have lb: "list_all emailChar (hd r # u)" and lc: "list_all emailChar (v @ [last (tl r)])"
    by simp_all
  from s a la lb lc show "\<exists>a b c. s = a @ CHR ''@'' # b @ CHR ''.'' # c \<and> a \<noteq> [] \<and> b \<noteq> [] \<and> c \<noteq> []
              \<and> list_all emailChar a \<and> list_all emailChar b \<and> list_all emailChar c"
    by blast
next
  assume "\<exists>a b c. s = a @ CHR ''@'' # b @ CHR ''.'' # c \<and> a \<noteq> [] \<and> b \<noteq> [] \<and> c \<noteq> []
              \<and> list_all emailChar a \<and> list_all emailChar b \<and> list_all emailChar c"
  then obtain a b c where s: "s = a @ CHR ''@'' # b @ CHR ''.'' # c"
    and ne: "a \<noteq> []" "b \<noteq> []" "c \<noteq> []"
    and l: "list_all emailChar a" "list_all emailChar b" "list_all emailChar c"
    by blast
  from l(1) have tw: "takeWhile emailChar s = a"
    unfolding s by (simp add: list_all_iff emailChar_at)
  from l(1) have dw: "dropWhile emailChar s = CHR ''@'' # b @ CHR ''.'' # c"
    unfolding s by (simp add: list_all_iff emailChar_at)
  have dot: "emailChar CHR ''.''"
    by (simp add: emailChar_def isSpace_def)
  from ne obtain b0 bs where b: "b = b0 # bs" by (cases b) auto
  from ne have bl: "butlast (bs @ CHR ''.'' # c) = bs @ CHR ''.'' # butlast c"
    by (simp add: butlast_append)
  have "CHR ''.'' \<in> set (butlast (tl (b @ CHR ''.'' # c)))"
    unfolding b by (simp add: bl)
  with tw dw ne l dot show "emailRegex_test s"
    by (simp add: emailRegex_test_def)
qed

section \<open>Follows: no self-edge, no second edge\<close>

text \<open>
  Claim C6. A user never follows themself: when the account named in the request is the
  requester's own, \<open>followUser\<close> answers 403 and leaves the store as it is, and no call adds
  an edge from a user to themself. After a call that succeeded, the same call again is
  rejected as already following, and the store stays as the first call left it.
\<close>

theorem followUser_self_twice:
  "(findFirst (\<lambda>u. user_username u = Some name) (user d) = Some u \<and> user_id u = me
      \<longrightarrow> followUser d me name = (reply 403 (Send ''You cannot follow yourself''), d))
   \<and> (\<forall>f \<in> set (rows (follow (snd (followUser d me name)))) - set (rows (follow d)).
         follow_userId f \<noteq> follow_followerId f)
   \<and> (status (fst (followUser d me name)) = 200
      \<longrightarrow> followUser (snd (followUser d me name)) me name
            = (reply 400 (Send ''You already follow this account''), snd (followUser d me name)))"
proof (intro conjI impI)
  assume "findFirst (\<lambda>u. user_username u = Some name) (user d) = Some u \<and> user_id u = me"
  then show "followUser d me name = (reply 403 (Send ''You cannot follow yourself''), d)"
    by (simp add: followUser_def)
next
  show "\<forall>f \<in> set (rows (follow (snd (followUser d me name)))) - set (rows (follow d)).
         follow_userId f \<noteq> follow_followerId f"
    by (auto simp: followUser_def create_def split: option.splits if_splits)
next
  assume ok: "status (fst (followUser d me name)) = 200"
  then show "followUser (snd (followUser d me name)) me name
            = (reply 400 (Send ''You already follow this account''), snd (followUser d me name))"
    by (auto simp: followUser_def create_def reply_def findFirst_def find_append_new
             split: option.splits if_splits)
qed

theorem followUser_self_twice_witness:
  "followUser exPeople 1 ''alice'' = (reply 403 (Send ''You cannot follow yourself''), exPeople)
   \<and> status (fst (followUser exPeople 1 ''bob'')) = 200
   \<and> followUser (snd (followUser exPeople 1 ''bob'')) 1 ''bob''
       = (reply 400 (Send ''You already follow this account''), snd (followUser exPeople 1 ''bob''))
   \<and> (\<exists>f \<in> set (rows (follow (snd (followUser exPeople 1 ''bob'')))) - set (rows (follow exPeople)).
         follow_userId f \<noteq> follow_followerId f)"
proof -
  have self: "findFirst (\<lambda>u. user_username u = Some ''alice'') (user exPeople) = Some alice
              \<and> user_id alice = 1"
    by (simp add: findFirst_def exPeople_def emptyDb_def alice_def bob_def exUser_def)
  have ok: "status (fst (followUser exPeople 1 ''bob'')) = 200"
    by (simp add: followUser_def findFirst_def exPeople_def emptyDb_def emptyTable_def
                  alice_def bob_def exUser_def create_def reply_def)
  have new: "\<lparr>follow_id = 1, follow_userId = 2, follow_followerId = 1\<rparr>
               \<in> set (rows (follow (snd (followUser exPeople 1 ''bob'')))) - set (rows (follow exPeople))"
    by (simp add: followUser_def findFirst_def exPeople_def emptyDb_def emptyTable_def
                  alice_def bob_def exUser_def create_def reply_def)
  from followUser_self_twice [of "''alice''" exPeople alice 1] self
  have a: "followUser exPeople 1 ''alice'' = (reply 403 (Send ''You cannot follow yourself''), exPeople)"
    by blast
  from followUser_self_twice [of "''bob''" exPeople alice 1] ok
  have b: "followUser (snd (followUser exPeople 1 ''bob'')) 1 ''bob''
       = (reply 400 (Send ''You already follow this account''), snd (followUser exPeople 1 ''bob''))"
    and c: "\<forall>f \<in> set (rows (follow (snd (followUser exPeople 1 ''bob'')))) - set (rows (follow exPeople)).
         follow_userId f \<noteq> follow_followerId f"
    by blast+
  from c new have "\<exists>f \<in> set (rows (follow (snd (followUser exPeople 1 ''bob'')))) - set (rows (follow exPeople)).
         follow_userId f \<noteq> follow_followerId f"
    by blast
  with a ok b show ?thesis by blast
qed

section \<open>Publishing: failures and fan-out\<close>

lemma find_published:
  "find (\<lambda>b. blog_blogId b = blogId \<and> blog_draft b)
     (map (\<lambda>x. if blog_blogId x = blogId
                then x\<lparr>blog_draft := False, blog_updatedAt := now\<rparr> else x) xs) = None"
  by (induction xs) auto

lemma followUser_notification:
  "notification (snd (followUser d who name)) = notification d"
  by (simp add: followUser_def create_def Let_def split: option.splits if_splits prod.splits)

lemma published_rows:
  "\<forall>x \<in> set (map (\<lambda>x. if blog_blogId x = blogId
                        then x\<lparr>blog_draft := False, blog_updatedAt := now\<rparr> else x) xs).
     blog_blogId x = blogId \<longrightarrow> \<not> blog_draft x"
proof (intro ballI impI)
  fix x
  assume "x \<in> set (map (\<lambda>x. if blog_blogId x = blogId
                        then x\<lparr>blog_draft := False, blog_updatedAt := now\<rparr> else x) xs)"
    and x: "blog_blogId x = blogId"
  then obtain y where y: "x = (if blog_blogId y = blogId
                        then y\<lparr>blog_draft := False, blog_updatedAt := now\<rparr> else y)"
    by (auto simp only: set_map)
  show "\<not> blog_draft x"
  proof (cases "blog_blogId y = blogId")
    case True
    with y show ?thesis by simp
  next
    case False
    with y x show ?thesis by simp
  qed
qed

lemma publishBlog_ok:
  assumes "findFirst (\<lambda>b. blog_blogId b = blogId \<and> blog_draft b) (blog d) = Some b"
    and "blog_authorId b = me" and "blog_title b \<noteq> []" and "blog_content b \<noteq> []"
  shows "\<exists>c. publishBlog d now me blogId
           = (reply 200 (Json c),
              d\<lparr>blog := (blog d)\<lparr>rows := map (\<lambda>x. if blog_blogId x = blogId
                    then x\<lparr>blog_draft := False, blog_updatedAt := now\<rparr> else x) (rows (blog d))\<rparr>,
                notification :=
                  (if length (filter (\<lambda>f. follow_userId f = me) (rows (follow d))) > 0
                   then notifyFollowers now (blog_id b)
                          (filter (\<lambda>f. follow_userId f = me) (rows (follow d))) (notification d)
                   else notification d)\<rparr>)"
proof -
  let ?p = "\<lambda>x. blog_blogId x = blogId"
  let ?f = "\<lambda>x. x\<lparr>blog_draft := False, blog_updatedAt := now\<rparr>"
  from assms(1) obtain c where c: "find ?p (rows (blog d)) = Some c"
    using find_weaken [of "\<lambda>b. blog_blogId b = blogId \<and> blog_draft b" "rows (blog d)" b ?p]
    by (auto simp: findFirst_def)
  have u: "update ?p ?f (blog d)
             = Some (?f c, (blog d)\<lparr>rows := map (\<lambda>x. if ?p x then ?f x else x) (rows (blog d))\<rparr>)"
    using c by (simp add: update_def)
  have "publishBlog d now me blogId
           = (reply 200 (Json (?f c)),
              d\<lparr>blog := (blog d)\<lparr>rows := map (\<lambda>x. if blog_blogId x = blogId
                    then x\<lparr>blog_draft := False, blog_updatedAt := now\<rparr> else x) (rows (blog d))\<rparr>,
                notification :=
                  (if length (filter (\<lambda>f. follow_userId f = me) (rows (follow d))) > 0
                   then notifyFollowers now (blog_id b)
                          (filter (\<lambda>f. follow_userId f = me) (rows (follow d))) (notification d)
                   else notification d)\<rparr>)"
    using assms by (simp add: publishBlog_def u findMany_def Let_def)
  then show ?thesis by blast
qed

lemma publishBlog_status:
  "status (fst (publishBlog d now me blogId)) = 200 \<longleftrightarrow>
     (\<exists>b. findFirst (\<lambda>b. blog_blogId b = blogId \<and> blog_draft b) (blog d) = Some b
          \<and> blog_authorId b = me \<and> blog_title b \<noteq> [] \<and> blog_content b \<noteq> [])"
proof (cases "findFirst (\<lambda>b. blog_blogId b = blogId \<and> blog_draft b) (blog d)")
  case None
  then show ?thesis by (simp add: publishBlog_def reply_def)
next
  case (Some b)
  show ?thesis
  proof (cases "blog_authorId b = me \<and> blog_title b \<noteq> [] \<and> blog_content b \<noteq> []")
    case True
    with Some publishBlog_ok [of blogId d b me now] show ?thesis
      by (auto simp: reply_def)
  next
    case False
    with Some show ?thesis by (auto simp: publishBlog_def reply_def)
  qed
qed

lemma publishBlog_again:
  assumes "status (fst (publishBlog d now me blogId)) = 200"
  shows "publishBlog (snd (publishBlog d now me blogId)) now' me' blogId
            = (reply 404 (Send ''Blog not found''), snd (publishBlog d now me blogId))"
proof -
  from assms obtain c where c: "findFirst (\<lambda>b. blog_blogId b = blogId \<and> blog_draft b) (blog d) = Some c"
      "blog_authorId c = me" "blog_title c \<noteq> []" "blog_content c \<noteq> []"
    by (auto simp: publishBlog_status)
  from publishBlog_ok [OF c, of now]
  have "rows (blog (snd (publishBlog d now me blogId)))
          = map (\<lambda>x. if blog_blogId x = blogId
                     then x\<lparr>blog_draft := False, blog_updatedAt := now\<rparr> else x) (rows (blog d))"
    by auto
  then have "findFirst (\<lambda>b. blog_blogId b = blogId \<and> blog_draft b)
               (blog (snd (publishBlog d now me blogId))) = None"
    by (simp add: findFirst_def find_published)
  then show ?thesis
    by (simp add: publishBlog_def)
qed

text \<open>
  Claim C4. \<open>publishBlog\<close> answers 404 when no draft has the id, which includes a blog that
  a successful call has published before; 403 when the requester is not the author of the
  draft; 400 when the author's draft has an empty title or an empty content. Every answer
  other than the 200 leaves the whole store as it was: no notification is created and no
  draft flag changes.
\<close>

theorem publishBlog_failures:
  "(findFirst (\<lambda>b. blog_blogId b = blogId \<and> blog_draft b) (blog d) = None
      \<longrightarrow> publishBlog d now me blogId = (reply 404 (Send ''Blog not found''), d))
   \<and> (findFirst (\<lambda>b. blog_blogId b = blogId \<and> blog_draft b) (blog d) = Some b
        \<and> blog_authorId b \<noteq> me
      \<longrightarrow> publishBlog d now me blogId = (reply 403 (Send ''Forbidden''), d))
   \<and> (findFirst (\<lambda>b. blog_blogId b = blogId \<and> blog_draft b) (blog d) = Some b
        \<and> blog_authorId b = me \<and> (blog_title b = [] \<or> blog_content b = [])
      \<longrightarrow> publishBlog d now me blogId
            = (reply 400 (Send ''Blog title and content cannot be empty''), d))
   \<and> (status (fst (publishBlog d now me blogId)) = 200
      \<longrightarrow> publishBlog (snd (publishBlog d now me blogId)) now' me' blogId
            = (reply 404 (Send ''Blog not found''), snd (publishBlog d now me blogId)))
   \<and> (status (fst (publishBlog d now me blogId)) \<noteq> 200
      \<longrightarrow> snd (publishBlog d now me blogId) = d)"
proof (intro conjI impI)
  assume "findFirst (\<lambda>b. blog_blogId b = blogId \<and> blog_draft b) (blog d) = None"
  then show "publishBlog d now me blogId = (reply 404 (Send ''Blog not found''), d)"
    by (simp add: publishBlog_def)
next
  assume "findFirst (\<lambda>b. blog_blogId b = blogId \<and> blog_draft b) (blog d) = Some b
        \<and> blog_authorId b \<noteq> me"
  then show "publishBlog d now me blogId = (reply 403 (Send ''Forbidden''), d)"
    by (simp add: publishBlog_def)
next
  assume "findFirst (\<lambda>b. blog_blogId b = blogId \<and> blog_draft b) (blog d) = Some b
        \<and> blog_authorId b = me \<and> (blog_title b = [] \<or> blog_content b = [])"
  then show "publishBlog d now me blogId
            = (reply 400 (Send ''Blog title and content cannot be empty''), d)"
    by (simp add: publishBlog_def)
next
  assume no: "status (fst (publishBlog d now me blogId)) \<noteq> 200"
  show "snd (publishBlog d now me blogId) = d"
  proof (cases "findFirst (\<lambda>b. blog_blogId b = blogId \<and> blog_draft b) (blog d)")
    case None
    then show ?thesis by (simp add: publishBlog_def)
  next
    case (Some c)
    with no have "\<not> (blog_authorId c = me \<and> blog_title c \<noteq> [] \<and> blog_content c \<noteq> [])"
      by (simp add: publishBlog_status)
    with Some show ?thesis by (auto simp: publishBlog_def)
  qed
next
  assume "status (fst (publishBlog d now me blogId)) = 200"
  then show "publishBlog (snd (publishBlog d now me blogId)) now' me' blogId
            = (reply 404 (Send ''Blog not found''), snd (publishBlog d now me blogId))"
    by (rule publishBlog_again)
qed

theorem publishBlog_failures_witness:
  "publishBlog exBlogs 5 2 ''nope'' = (reply 404 (Send ''Blog not found''), exBlogs)
   \<and> publishBlog exBlogs 5 1 ''p0st'' = (reply 403 (Send ''Forbidden''), exBlogs)
   \<and> publishBlog exBlogs 5 2 ''n0title''
       = (reply 400 (Send ''Blog title and content cannot be empty''), exBlogs)
   \<and> status (fst (publishBlog exBlogs 5 2 ''p0st'')) = 200
   \<and> publishBlog (snd (publishBlog exBlogs 5 2 ''p0st'')) 6 2 ''p0st''
       = (reply 404 (Send ''Blog not found''), snd (publishBlog exBlogs 5 2 ''p0st''))
   \<and> status (fst (publishBlog exBlogs 5 1 ''p0st'')) \<noteq> 200
   \<and> snd (publishBlog exBlogs 5 1 ''p0st'') = exBlogs"
proof -
  have h1: "findFirst (\<lambda>b. blog_blogId b = ''nope'' \<and> blog_draft b) (blog exBlogs) = None"
    by (simp add: findFirst_def exBlogs_def exDraft_def exUntitled_def)
  have h2: "findFirst (\<lambda>b. blog_blogId b = ''p0st'' \<and> blog_draft b) (blog exBlogs) = Some exDraft
            \<and> blog_authorId exDraft \<noteq> 1"
    by (simp add: findFirst_def exBlogs_def exDraft_def exUntitled_def)
  have h3: "findFirst (\<lambda>b. blog_blogId b = ''n0title'' \<and> blog_draft b) (blog exBlogs)
              = Some exUntitled
            \<and> blog_authorId exUntitled = 2
            \<and> (blog_title exUntitled = [] \<or> blog_content exUntitled = [])"
    by (simp add: findFirst_def exBlogs_def exDraft_def exUntitled_def)
  have h4: "status (fst (publishBlog exBlogs 5 2 ''p0st'')) = 200"
    by (simp add: publishBlog_status findFirst_def exBlogs_def exDraft_def exUntitled_def)
  have h5: "status (fst (publishBlog exBlogs 5 1 ''p0st'')) \<noteq> 200"
    by (simp add: publishBlog_status findFirst_def exBlogs_def exDraft_def exUntitled_def)
  note a = publishBlog_failures [of "''nope''" exBlogs 5 2 exDraft 6 2,
               THEN conjunct1, THEN mp, OF h1]
  note b = publishBlog_failures [of "''p0st''" exBlogs 5 1 exDraft 6 2,
               THEN conjunct2, THEN conjunct1, THEN mp, OF h2]
  note c = publishBlog_failures [of "''n0title''" exBlogs 5 2 exUntitled 6 2,
               THEN conjunct2, THEN conjunct2, THEN conjunct1, THEN mp, OF h3]
  note d = publishBlog_failures [of "''p0st''" exBlogs 5 2 exDraft 6 2,
               THEN conjunct2, THEN conjunct2, THEN conjunct2, THEN conjunct1, THEN mp, OF h4]
  note e = publishBlog_failures [of "''p0st''" exBlogs 5 1 exDraft 6 2,
               THEN conjunct2, THEN conjunct2, THEN conjunct2, THEN conjunct2, THEN mp, OF h5]
  show ?thesis
    by (intro conjI a b c d e h4 h5)
qed

lemma enumerate_shift:
  "map (\<lambda>(k, f). g (n + int k) f) (enumerate (Suc 0) fs)
     = map (\<lambda>(k, f). g (n + 1 + int k) f) (enumerate 0 fs)"
  by (simp add: enumerate_Suc_eq case_prod_beta comp_def add.assoc)

lemma notifyFollowers_exact:
  "notifyFollowers now bid fs t
     = \<lparr>rows = rows t @ map (\<lambda>(k, f). \<lparr>notification_id = nextId t + int k,
                                         notification_userId = follow_followerId f,
                                         notification_blogId = bid, notification_seen = False,
                                         notification_createdAt = now\<rparr>) (enumerate 0 fs),
        nextId = nextId t + int (length fs)\<rparr>"
proof (induction fs arbitrary: t)
  case Nil
  then show ?case by simp
next
  case (Cons f fs)
  let ?g = "\<lambda>i f. \<lparr>notification_id = i, notification_userId = follow_followerId f,
                     notification_blogId = bid, notification_seen = False,
                     notification_createdAt = now\<rparr>"
  let ?t = "\<lparr>rows = rows t @ [?g (nextId t) f], nextId = nextId t + 1\<rparr>"
  have "notifyFollowers now bid (f # fs) t = notifyFollowers now bid fs ?t"
    by (simp add: create_def)
  also have "\<dots> = \<lparr>rows = rows ?t @ map (\<lambda>(k, f). ?g (nextId ?t + int k) f) (enumerate 0 fs),
                    nextId = nextId ?t + int (length fs)\<rparr>"
    by (rule Cons.IH)
  also have "\<dots> = \<lparr>rows = rows t @ map (\<lambda>(k, f). ?g (nextId t + int k) f) (enumerate 0 (f # fs)),
                    nextId = nextId t + int (length (f # fs))\<rparr>"
    using enumerate_shift [of ?g "nextId t" fs] by simp
  finally show ?case .
qed

lemma publishBlog_exact:
  assumes "findFirst (\<lambda>b. blog_blogId b = blogId \<and> blog_draft b) (blog d) = Some b"
    and "blog_authorId b = me" and "blog_title b \<noteq> []" and "blog_content b \<noteq> []"
  shows "\<exists>c. find (\<lambda>x. blog_blogId x = blogId) (rows (blog d)) = Some c
     \<and> publishBlog d now me blogId
         = (reply 200 (Json (c\<lparr>blog_draft := False, blog_updatedAt := now\<rparr>)),
            d\<lparr>blog := (blog d)\<lparr>rows := map (\<lambda>x. if blog_blogId x = blogId
                    then x\<lparr>blog_draft := False, blog_updatedAt := now\<rparr> else x) (rows (blog d))\<rparr>,
              notification :=
                \<lparr>rows = rows (notification d)
                    @ map (\<lambda>(k, f). \<lparr>notification_id = nextId (notification d) + int k,
                                      notification_userId = follow_followerId f,
                                      notification_blogId = blog_id b, notification_seen = False,
                                      notification_createdAt = now\<rparr>)
                        (enumerate 0 (filter (\<lambda>f. follow_userId f = me) (rows (follow d)))),
                 nextId = nextId (notification d)
                    + int (length (filter (\<lambda>f. follow_userId f = me) (rows (follow d))))\<rparr>\<rparr>)"
proof -
  let ?p = "\<lambda>x. blog_blogId x = blogId"
  let ?f = "\<lambda>x. x\<lparr>blog_draft := False, blog_updatedAt := now\<rparr>"
  let ?fs = "filter (\<lambda>f. follow_userId f = me) (rows (follow d))"
  from assms(1) obtain c where c: "find ?p (rows (blog d)) = Some c"
    using find_weaken [of "\<lambda>b. blog_blogId b = blogId \<and> blog_draft b" "rows (blog d)" b ?p]
    by (auto simp: findFirst_def)
  have u: "update ?p ?f (blog d)
             = Some (?f c, (blog d)\<lparr>rows := map (\<lambda>x. if ?p x then ?f x else x) (rows (blog d))\<rparr>)"
    using c by (simp add: update_def)
  have n: "(if length ?fs > 0 then notifyFollowers now (blog_id b) ?fs (notification d)
            else notification d)
           = \<lparr>rows = rows (notification d)
                    @ map (\<lambda>(k, f). \<lparr>notification_id = nextId (notification d) + int k,
                                      notification_userId = follow_followerId f,
                                      notification_blogId = blog_id b, notification_seen = False,
                                      notification_createdAt = now\<rparr>) (enumerate 0 ?fs),
               nextId = nextId (notification d) + int (length ?fs)\<rparr>"
  proof (cases "length ?fs > 0")
    case True
    then show ?thesis by (simp only: if_True notifyFollowers_exact)
  next
    case False
    then have "?fs = []" by simp
    then show ?thesis by simp
  qed
  have "publishBlog d now me blogId
         = (reply 200 (Json (?f c)),
            d\<lparr>blog := (blog d)\<lparr>rows := map (\<lambda>x. if ?p x then ?f x else x) (rows (blog d))\<rparr>,
              notification := (if length ?fs > 0
                               then notifyFollowers now (blog_id b) ?fs (notification d)
                               else notification d)\<rparr>)"
    using assms by (simp add: publishBlog_def u findMany_def Let_def)
  then have "publishBlog d now me blogId
         = (reply 200 (Json (?f c)),
            d\<lparr>blog := (blog d)\<lparr>rows := map (\<lambda>x. if ?p x then ?f x else x) (rows (blog d))\<rparr>,
              notification :=
                \<lparr>rows = rows (notification d)
                    @ map (\<lambda>(k, f). \<lparr>notification_id = nextId (notification d) + int k,
                                      notification_userId = follow_followerId f,
                                      notification_blogId = blog_id b, notification_seen = False,
                                      notification_createdAt = now\<rparr>) (enumerate 0 ?fs),
                 nextId = nextId (notification d) + int (length ?fs)\<rparr>\<rparr>)"
    by (simp only: n)
  with c show ?thesis by blast
qed

text \<open>
  Claim C5. A successful \<open>publishBlog\<close> answers 200 with the published row and changes the
  store in two places only. In the blog table the row of the blog has its draft flag cleared
  (and its time of update set), every other row is as before. The notification table gains
  one row for each follow row of the author, in their order and with the next ids of the
  table: as many as the author has followers, each unseen, each for the published blog, each
  for the follower of its row, each created now. The followers are read once: a later
  \<open>followUser\<close> creates no notification, and the blog cannot be published a second time.
\<close>

theorem publishBlog_fanout:
  assumes "findFirst (\<lambda>b. blog_blogId b = blogId \<and> blog_draft b) (blog d) = Some b"
    and "blog_authorId b = me" and "blog_title b \<noteq> []" and "blog_content b \<noteq> []"
  shows "\<exists>c news.
       find (\<lambda>x. blog_blogId x = blogId) (rows (blog d)) = Some c
     \<and> news = map (\<lambda>(k, f). \<lparr>notification_id = nextId (notification d) + int k,
                              notification_userId = follow_followerId f,
                              notification_blogId = blog_id b, notification_seen = False,
                              notification_createdAt = now\<rparr>)
                (enumerate 0 (filter (\<lambda>f. follow_userId f = me) (rows (follow d))))
     \<and> publishBlog d now me blogId
         = (reply 200 (Json (c\<lparr>blog_draft := False, blog_updatedAt := now\<rparr>)),
            d\<lparr>blog := (blog d)\<lparr>rows := map (\<lambda>x. if blog_blogId x = blogId
                    then x\<lparr>blog_draft := False, blog_updatedAt := now\<rparr> else x) (rows (blog d))\<rparr>,
              notification := \<lparr>rows = rows (notification d) @ news,
                               nextId = nextId (notification d) + int (length news)\<rparr>\<rparr>)
     \<and> status (fst (publishBlog d now me blogId)) = 200
     \<and> (\<forall>x \<in> set (rows (blog (snd (publishBlog d now me blogId)))).
           blog_blogId x = blogId \<longrightarrow> \<not> blog_draft x)
     \<and> rows (notification (snd (publishBlog d now me blogId))) = rows (notification d) @ news
     \<and> length news = length (filter (\<lambda>f. follow_userId f = me) (rows (follow d)))
     \<and> map notification_userId news
         = map follow_followerId (filter (\<lambda>f. follow_userId f = me) (rows (follow d)))
     \<and> (\<forall>n \<in> set news. \<not> notification_seen n \<and> notification_blogId n = blog_id b)
     \<and> notification (snd (followUser (snd (publishBlog d now me blogId)) who name))
         = notification (snd (publishBlog d now me blogId))
     \<and> notification (snd (publishBlog (snd (publishBlog d now me blogId)) now' me' blogId))
         = notification (snd (publishBlog d now me blogId))"
proof -
  let ?fs = "filter (\<lambda>f. follow_userId f = me) (rows (follow d))"
  let ?d' = "snd (publishBlog d now me blogId)"
  define news where "news = map (\<lambda>(k, f). \<lparr>notification_id = nextId (notification d) + int k,
                              notification_userId = follow_followerId f,
                              notification_blogId = blog_id b, notification_seen = False,
                              notification_createdAt = now\<rparr>) (enumerate 0 ?fs)"
  have len: "length news = length ?fs"
    by (simp add: news_def)
  from publishBlog_exact [OF assms, of now] obtain c where
    c: "find (\<lambda>x. blog_blogId x = blogId) (rows (blog d)) = Some c"
    and res: "publishBlog d now me blogId
         = (reply 200 (Json (c\<lparr>blog_draft := False, blog_updatedAt := now\<rparr>)),
            d\<lparr>blog := (blog d)\<lparr>rows := map (\<lambda>x. if blog_blogId x = blogId
                    then x\<lparr>blog_draft := False, blog_updatedAt := now\<rparr> else x) (rows (blog d))\<rparr>,
              notification := \<lparr>rows = rows (notification d) @ news,
                               nextId = nextId (notification d) + int (length news)\<rparr>\<rparr>)"
    unfolding len unfolding news_def by (elim exE conjE)
  have r1: "rows (notification ?d') = rows (notification d) @ news"
    by (simp add: res)
  have rb: "rows (blog ?d') = map (\<lambda>x. if blog_blogId x = blogId
                    then x\<lparr>blog_draft := False, blog_updatedAt := now\<rparr> else x) (rows (blog d))"
    by (simp add: res)
  have r2: "\<forall>x \<in> set (rows (blog ?d')). blog_blogId x = blogId \<longrightarrow> \<not> blog_draft x"
    unfolding rb by (rule published_rows)
  have r3: "status (fst (publishBlog d now me blogId)) = 200"
    by (simp add: res reply_def)
  have r4: "notification (snd (followUser ?d' who name)) = notification ?d'"
    by (rule followUser_notification)
  have "publishBlog ?d' now' me' blogId = (reply 404 (Send ''Blog not found''), ?d')"
    using r3 by (rule publishBlog_again)
  then have r5: "notification (snd (publishBlog ?d' now' me' blogId)) = notification ?d'"
    by simp
  have "map notification_userId news = map (\<lambda>x. follow_followerId (snd x)) (enumerate 0 ?fs)"
    by (simp add: news_def case_prod_beta)
  also have "\<dots> = map follow_followerId (map snd (enumerate 0 ?fs))"
    by (simp only: map_map comp_def)
  finally have r6: "map notification_userId news = map follow_followerId ?fs"
    by simp
  have r7: "\<forall>n \<in> set news. \<not> notification_seen n \<and> notification_blogId n = blog_id b"
    by (auto simp: news_def)
  show ?thesis
    by (rule exI [of _ c], rule exI [of _ news])
       (intro conjI c news_def res r1 r2 r3 r4 r5 len r6 r7)
qed

theorem publishBlog_fanout_witness:
  "findFirst (\<lambda>b. blog_blogId b = ''p0st'' \<and> blog_draft b) (blog exBlogs) = Some exDraft
   \<and> blog_authorId exDraft = 2 \<and> blog_title exDraft \<noteq> [] \<and> blog_content exDraft \<noteq> []
   \<and> fst (publishBlog exBlogs 5 2 ''p0st'')
       = reply 200 (Json (exDraft\<lparr>blog_draft := False, blog_updatedAt := 5\<rparr>))
   \<and> blog (snd (publishBlog exBlogs 5 2 ''p0st''))
       = \<lparr>rows = [exDraft\<lparr>blog_draft := False, blog_updatedAt := 5\<rparr>, exUntitled], nextId = 9\<rparr>
   \<and> notification (snd (publishBlog exBlogs 5 2 ''p0st''))
       = \<lparr>rows = [\<lparr>notification_id = 1, notification_userId = 1, notification_blogId = 7,
                    notification_seen = False, notification_createdAt = 5\<rparr>,
                  \<lparr>notification_id = 2, notification_userId = 3, notification_blogId = 7,
                    notification_seen = False, notification_createdAt = 5\<rparr>,
                  \<lparr>notification_id = 3, notification_userId = 4, notification_blogId = 7,
                    notification_seen = False, notification_createdAt = 5\<rparr>],
          nextId = 4\<rparr>
   \<and> follow (snd (publishBlog exBlogs 5 2 ''p0st'')) = follow exBlogs
   \<and> user (snd (publishBlog exBlogs 5 2 ''p0st'')) = user exBlogs"
proof -
  have h1: "findFirst (\<lambda>b. blog_blogId b = ''p0st'' \<and> blog_draft b) (blog exBlogs) = Some exDraft"
    by (simp add: findFirst_def exBlogs_def exDraft_def exUntitled_def)
  have h2: "blog_authorId exDraft = 2" and h3: "blog_title exDraft \<noteq> []"
    and h4: "blog_content exDraft \<noteq> []" and h5: "blog_id exDraft = 7"
    by (simp_all add: exDraft_def)
  from publishBlog_fanout [OF h1 h2 h3 h4, of 5 2 "''alice''" 6 2] obtain c news where
    c: "find (\<lambda>x. blog_blogId x = ''p0st'') (rows (blog exBlogs)) = Some c"
    and n: "news = map (\<lambda>(k, f). \<lparr>notification_id = nextId (notification exBlogs) + int k,
                              notification_userId = follow_followerId f,
                              notification_blogId = blog_id exDraft, notification_seen = False,
                              notification_createdAt = 5\<rparr>)
                (enumerate 0 (filter (\<lambda>f. follow_userId f = 2) (rows (follow exBlogs))))"
    and res: "publishBlog exBlogs 5 2 ''p0st''
         = (reply 200 (Json (c\<lparr>blog_draft := False, blog_updatedAt := 5\<rparr>)),
            exBlogs\<lparr>blog := (blog exBlogs)\<lparr>rows := map (\<lambda>x. if blog_blogId x = ''p0st''
                    then x\<lparr>blog_draft := False, blog_updatedAt := 5\<rparr> else x)
                    (rows (blog exBlogs))\<rparr>,
              notification := \<lparr>rows = rows (notification exBlogs) @ news,
                               nextId = nextId (notification exBlogs) + int (length news)\<rparr>\<rparr>)"
    by (elim exE conjE)
  have cv: "c = exDraft"
    using c by (simp add: exBlogs_def exDraft_def exUntitled_def)
  have nv: "news = [\<lparr>notification_id = 1, notification_userId = 1, notification_blogId = 7,
                    notification_seen = False, notification_createdAt = 5\<rparr>,
                  \<lparr>notification_id = 2, notification_userId = 3, notification_blogId = 7,
                    notification_seen = False, notification_createdAt = 5\<rparr>,
                  \<lparr>notification_id = 3, notification_userId = 4, notification_blogId = 7,
                    notification_seen = False, notification_createdAt = 5\<rparr>]"
    unfolding n h5 by (simp add: exBlogs_def emptyDb_def emptyTable_def)
  have bv: "map (\<lambda>x. if blog_blogId x = ''p0st''
                    then x\<lparr>blog_draft := False, blog_updatedAt := 5\<rparr> else x) (rows (blog exBlogs))
              = [exDraft\<lparr>blog_draft := False, blog_updatedAt := 5\<rparr>, exUntitled]"
    by (simp add: exBlogs_def exDraft_def exUntitled_def)
  have tv: "nextId (blog exBlogs) = 9" "rows (notification exBlogs) = []"
    "nextId (notification exBlogs) = 1"
    by (simp_all add: exBlogs_def emptyDb_def emptyTable_def)
  have r1: "fst (publishBlog exBlogs 5 2 ''p0st'')
       = reply 200 (Json (exDraft\<lparr>blog_draft := False, blog_updatedAt := 5\<rparr>))"
    unfolding res cv by simp
  have r2: "blog (snd (publishBlog exBlogs 5 2 ''p0st''))
       = \<lparr>rows = [exDraft\<lparr>blog_draft := False, blog_updatedAt := 5\<rparr>, exUntitled], nextId = 9\<rparr>"
    unfolding res by (simp add: bv tv)
  have r3: "notification (snd (publishBlog exBlogs 5 2 ''p0st''))
       = \<lparr>rows = news, nextId = 4\<rparr>"
    unfolding res by (simp add: tv nv)
  have r4: "follow (snd (publishBlog exBlogs 5 2 ''p0st'')) = follow exBlogs"
    and r5: "user (snd (publishBlog exBlogs 5 2 ''p0st'')) = user exBlogs"
    unfolding res by simp_all
  show ?thesis
    using r3 unfolding nv by (intro conjI h1 h2 h3 h4 r1 r2 r4 r5)
qed

section \<open>Single-use tokens: the validity window\<close>

lemma hours_over: "(real_of_int x / (1000 * 3600) > 24) = (x > 24 * 60 * 60 * 1000)"
  by (simp add: field_simps)

lemma resetAccountPassword_expired:
  assumes "password \<noteq> []"
    and "findFirst (\<lambda>t. token_token t = tok) (passwordResetToken d) = Some t"
    and "now - token_createdAt t > 24 * 60 * 60 * 1000"
  shows "resetAccountPassword bc d now tok password
           = (reply 400 (Send ''Token expired or not valid''), d)"
  using assms by (simp add: resetAccountPassword_def hours_over)

lemma resetAccountPassword_ok:
  assumes "password \<noteq> []" and "passwordRegex_test password"
    and "findFirst (\<lambda>t. token_token t = tok) (passwordResetToken d) = Some t"
    and "now - token_createdAt t \<le> 24 * 60 * 60 * 1000"
    and "findFirst (\<lambda>u. user_id u = token_userId t) (user d) = Some u"
  shows "\<exists>tt. resetAccountPassword bc d now tok password
           = (reply 200 (Json (u\<lparr>user_hashedPassword := Some (bcrypt_hash bc password 12),
                                   user_updatedAt := now\<rparr>)),
              d\<lparr>user := (user d)\<lparr>rows := map (\<lambda>x. if user_id x = token_userId t
                       then x\<lparr>user_hashedPassword := Some (bcrypt_hash bc password 12),
                              user_updatedAt := now\<rparr> else x) (rows (user d))\<rparr>,
                passwordResetToken := tt\<rparr>)"
proof -
  let ?f = "\<lambda>x. x\<lparr>user_hashedPassword := Some (bcrypt_hash bc password 12), user_updatedAt := now\<rparr>"
  let ?g = "\<lambda>x. x\<lparr>token_resolvedAt := Some now, token_updatedAt := now\<rparr>"
  have u: "update (\<lambda>u. user_id u = token_userId t) ?f (user d)
             = Some (?f u, (user d)\<lparr>rows := map (\<lambda>x. if user_id x = token_userId t
                       then ?f x else x) (rows (user d))\<rparr>)"
    using assms(5) by (simp add: update_def findFirst_def)
  from assms(3) have "t \<in> set (rows (passwordResetToken d))"
    by (simp add: findFirst_def find_SomeD)
  then obtain c where "find (\<lambda>x. token_id x = token_id t) (rows (passwordResetToken d)) = Some c"
    using find_exists [of t "rows (passwordResetToken d)" "\<lambda>x. token_id x = token_id t"] by auto
  then obtain r tt where
    v: "update (\<lambda>x. token_id x = token_id t) ?g (passwordResetToken d) = Some (r, tt)"
    by (simp add: update_def)
  have "\<not> real_of_int (now - token_createdAt t) / (1000 * 3600) > 24"
    using assms(4) by (simp add: hours_over)
  then have "resetAccountPassword bc d now tok password
           = (reply 200 (Json (?f u)),
              d\<lparr>user := (user d)\<lparr>rows := map (\<lambda>x. if user_id x = token_userId t
                       then ?f x else x) (rows (user d))\<rparr>,
                passwordResetToken := tt\<rparr>)"
    using assms(1,2,3) by (simp add: resetAccountPassword_def u v Let_def)
  then show ?thesis by (rule exI)
qed

lemma deleteUser_expired:
  assumes "findFirst (\<lambda>t. token_token t = tok) (deleteToken d) = Some t"
    and "now - token_createdAt t > 24 * 60 * 60 * 1000"
  shows "deleteUser d now me tok = (reply 400 (Send ''Token is expired''), d)"
  using assms by (simp add: deleteUser_def)

lemma user_delete_refused:
  assumes "findFirst (\<lambda>t. token_token t = tok) (deleteToken d) = Some t"
  shows "user_delete (token_userId t) d = None"
proof -
  from assms have "t \<in> set (rows (deleteToken d))"
    by (simp add: findFirst_def find_SomeD)
  then obtain c where
    "find (\<lambda>x. token_userId x = token_userId t) (rows (deleteToken d)) = Some c"
    using find_exists [of t "rows (deleteToken d)" "\<lambda>x. token_userId x = token_userId t"] by auto
  then show ?thesis
    by (simp add: user_delete_def findFirst_def split: option.splits)
qed

lemma deleteUser_accepted:
  assumes "findFirst (\<lambda>t. token_token t = tok) (deleteToken d) = Some t"
    and "now - token_createdAt t \<le> 24 * 60 * 60 * 1000"
    and "token_userId t = me"
  shows "deleteUser d now me tok
           = (case user_delete me d of
                None \<Rightarrow> (reply 500 (Message prismaError), d)
              | Some d' \<Rightarrow> (reply 200 (Message ''account deleted''), d'))"
  using assms by (simp add: deleteUser_def)

text \<open>
  With this schema the deletion never goes through: the token that the request presents is
  itself a row that references the user, so the store refuses to delete the user and the
  handler answers from its \<^verbatim>\<open>catch\<close> block.
\<close>

lemma deleteUser_refused:
  assumes "findFirst (\<lambda>t. token_token t = tok) (deleteToken d) = Some t"
    and "now - token_createdAt t \<le> 24 * 60 * 60 * 1000"
    and "token_userId t = me"
  shows "deleteUser d now me tok = (reply 500 (Message prismaError), d)"
  using deleteUser_accepted [OF assms] user_delete_refused [OF assms(1)] assms(3) by simp

lemma activateAccount_ok:
  assumes "findFirst (\<lambda>t. token_token t = tok) (activateToken d) = Some t"
    and "findFirst (\<lambda>u. user_id u = token_userId t) (user d) = Some u"
    and "findFirst (\<lambda>u. user_id u = token_userId t \<and> user_isEmailVerified u) (user d) = None"
  shows "activateAccount d now tok
           = (reply 200 (Json (u\<lparr>user_isEmailVerified := True, user_updatedAt := now\<rparr>)),
              d\<lparr>user := (user d)\<lparr>rows := map (\<lambda>x. if user_id x = token_userId t
                       then x\<lparr>user_isEmailVerified := True, user_updatedAt := now\<rparr> else x)
                       (rows (user d))\<rparr>\<rparr>)"
proof -
  let ?f = "\<lambda>x. x\<lparr>user_isEmailVerified := True, user_updatedAt := now\<rparr>"
  have u: "update (\<lambda>u. user_id u = token_userId t) ?f (user d)
             = Some (?f u, (user d)\<lparr>rows := map (\<lambda>x. if user_id x = token_userId t
                       then ?f x else x) (rows (user d))\<rparr>)"
    using assms(2) by (simp add: update_def findFirst_def)
  show ?thesis
    using assms(1,3) by (simp add: activateAccount_def u)
qed

text \<open>
  Claim C1, as the code has it. A password-reset token and a deletion token are rejected as
  expired once more than 24 hours have passed since their creation. Up to then, so also after
  23 hours and 59 minutes, a reset token succeeds: for a password that meets the policy the
  reset answers 200 with the user the token is bound to, whose password hash it has replaced.
  A deletion token of that age, presented by the user it is bound to, passes the checks of
  the handler, whose answer then is that of the deletion asked of the store. An activation
  token has no validity window: whatever its age, it activates the user it is bound to as
  long as that user is not verified. None of the three looks at the resolved timestamp of the
  token.
\<close>

theorem token_validity_window:
  "(password \<noteq> []
      \<and> findFirst (\<lambda>t. token_token t = tok) (passwordResetToken d) = Some t
      \<and> now - token_createdAt t > 24 * 60 * 60 * 1000
      \<longrightarrow> resetAccountPassword bc d now tok password
            = (reply 400 (Send ''Token expired or not valid''), d))
   \<and> (password \<noteq> [] \<and> passwordRegex_test password
      \<and> findFirst (\<lambda>t. token_token t = tok) (passwordResetToken d) = Some t
      \<and> now - token_createdAt t \<le> 24 * 60 * 60 * 1000
      \<and> findFirst (\<lambda>u. user_id u = token_userId t) (user d) = Some u
      \<longrightarrow> (\<exists>u'. fst (resetAccountPassword bc d now tok password) = reply 200 (Json u')
                \<and> user_id u' = token_userId t)
          \<and> rows (user (snd (resetAccountPassword bc d now tok password)))
              = map (\<lambda>x. if user_id x = token_userId t
                         then x\<lparr>user_hashedPassword := Some (bcrypt_hash bc password 12),
                                user_updatedAt := now\<rparr> else x) (rows (user d)))
   \<and> (findFirst (\<lambda>t. token_token t = tok) (deleteToken d) = Some t
      \<and> now - token_createdAt t > 24 * 60 * 60 * 1000
      \<longrightarrow> deleteUser d now me tok = (reply 400 (Send ''Token is expired''), d))
   \<and> (findFirst (\<lambda>t. token_token t = tok) (deleteToken d) = Some t
      \<and> now - token_createdAt t \<le> 24 * 60 * 60 * 1000
      \<and> token_userId t = me
      \<longrightarrow> status (fst (deleteUser d now me tok)) \<notin> {400, 403, 404}
          \<and> deleteUser d now me tok
              = (case user_delete me d of
                   None \<Rightarrow> (reply 500 (Message prismaError), d)
                 | Some d' \<Rightarrow> (reply 200 (Message ''account deleted''), d')))
   \<and> (findFirst (\<lambda>t. token_token t = tok) (activateToken d) = Some t
      \<and> findFirst (\<lambda>u. user_id u = token_userId t) (user d) = Some u
      \<and> findFirst (\<lambda>u. user_id u = token_userId t \<and> user_isEmailVerified u) (user d) = None
      \<longrightarrow> (\<exists>u'. fst (activateAccount d now tok) = reply 200 (Json u')
                \<and> user_id u' = token_userId t \<and> user_isEmailVerified u')
          \<and> rows (user (snd (activateAccount d now tok)))
              = map (\<lambda>x. if user_id x = token_userId t
                         then x\<lparr>user_isEmailVerified := True, user_updatedAt := now\<rparr> else x)
                  (rows (user d)))"
proof (intro conjI impI)
  assume "password \<noteq> []
      \<and> findFirst (\<lambda>t. token_token t = tok) (passwordResetToken d) = Some t
      \<and> now - token_createdAt t > 24 * 60 * 60 * 1000"
  then show "resetAccountPassword bc d now tok password
            = (reply 400 (Send ''Token expired or not valid''), d)"
    by (simp add: resetAccountPassword_expired)
next
  assume a: "password \<noteq> [] \<and> passwordRegex_test password
      \<and> findFirst (\<lambda>t. token_token t = tok) (passwordResetToken d) = Some t
      \<and> now - token_createdAt t \<le> 24 * 60 * 60 * 1000
      \<and> findFirst (\<lambda>u. user_id u = token_userId t) (user d) = Some u"
  then have i: "user_id u = token_userId t"
    using find_SomeD [of "\<lambda>u. user_id u = token_userId t" "rows (user d)" u]
    by (simp add: findFirst_def)
  from a resetAccountPassword_ok [of password tok d t now u bc]
  obtain tt where res: "resetAccountPassword bc d now tok password
           = (reply 200 (Json (u\<lparr>user_hashedPassword := Some (bcrypt_hash bc password 12),
                                   user_updatedAt := now\<rparr>)),
              d\<lparr>user := (user d)\<lparr>rows := map (\<lambda>x. if user_id x = token_userId t
                       then x\<lparr>user_hashedPassword := Some (bcrypt_hash bc password 12),
                              user_updatedAt := now\<rparr> else x) (rows (user d))\<rparr>,
                passwordResetToken := tt\<rparr>)"
    by auto
  from res have "fst (resetAccountPassword bc d now tok password)
               = reply 200 (Json (u\<lparr>user_hashedPassword := Some (bcrypt_hash bc password 12),
                                      user_updatedAt := now\<rparr>))
             \<and> user_id (u\<lparr>user_hashedPassword := Some (bcrypt_hash bc password 12),
                           user_updatedAt := now\<rparr>) = token_userId t"
    using i by simp
  then show "\<exists>u'. fst (resetAccountPassword bc d now tok password) = reply 200 (Json u')
                \<and> user_id u' = token_userId t"
    by (rule exI)
  show "rows (user (snd (resetAccountPassword bc d now tok password)))
              = map (\<lambda>x. if user_id x = token_userId t
                         then x\<lparr>user_hashedPassword := Some (bcrypt_hash bc password 12),
                                user_updatedAt := now\<rparr> else x) (rows (user d))"
    by (simp add: res)
next
  assume "findFirst (\<lambda>t. token_token t = tok) (deleteToken d) = Some t
      \<and> now - token_createdAt t > 24 * 60 * 60 * 1000"
  then show "deleteUser d now me tok = (reply 400 (Send ''Token is expired''), d)"
    by (simp add: deleteUser_expired)
next
  assume a: "findFirst (\<lambda>t. token_token t = tok) (deleteToken d) = Some t
      \<and> now - token_createdAt t \<le> 24 * 60 * 60 * 1000
      \<and> token_userId t = me"
  then have acc: "deleteUser d now me tok
              = (case user_delete me d of
                   None \<Rightarrow> (reply 500 (Message prismaError), d)
                 | Some d' \<Rightarrow> (reply 200 (Message ''account deleted''), d'))"
    by (simp add: deleteUser_accepted)
  then show "deleteUser d now me tok
              = (case user_delete me d of
                   None \<Rightarrow> (reply 500 (Message prismaError), d)
                 | Some d' \<Rightarrow> (reply 200 (Message ''account deleted''), d'))" .
  show "status (fst (deleteUser d now me tok)) \<notin> {400, 403, 404}"
    unfolding acc by (cases "user_delete me d") (simp_all add: reply_def)
next
  assume a: "findFirst (\<lambda>t. token_token t = tok) (activateToken d) = Some t
      \<and> findFirst (\<lambda>u. user_id u = token_userId t) (user d) = Some u
      \<and> findFirst (\<lambda>u. user_id u = token_userId t \<and> user_isEmailVerified u) (user d) = None"
  then have i: "user_id u = token_userId t"
    using find_SomeD [of "\<lambda>u. user_id u = token_userId t" "rows (user d)" u]
    by (simp add: findFirst_def)
  from a activateAccount_ok [of tok d t u now]
  show "rows (user (snd (activateAccount d now tok)))
              = map (\<lambda>x. if user_id x = token_userId t
                         then x\<lparr>user_isEmailVerified := True, user_updatedAt := now\<rparr> else x)
                  (rows (user d))"
    by simp
  from a activateAccount_ok [of tok d t u now]
  have "fst (activateAccount d now tok)
          = reply 200 (Json (u\<lparr>user_isEmailVerified := True, user_updatedAt := now\<rparr>))"
    by simp
  with i have "fst (activateAccount d now tok)
          = reply 200 (Json (u\<lparr>user_isEmailVerified := True, user_updatedAt := now\<rparr>))
        \<and> user_id (u\<lparr>user_isEmailVerified := True, user_updatedAt := now\<rparr>) = token_userId t
        \<and> user_isEmailVerified (u\<lparr>user_isEmailVerified := True, user_updatedAt := now\<rparr>)"
    by simp
  then show "\<exists>u'. fst (activateAccount d now tok) = reply 200 (Json u')
                \<and> user_id u' = token_userId t \<and> user_isEmailVerified u'"
    by (rule exI)
qed

theorem token_validity_window_witness:
  "resetAccountPassword exBcrypt exTokens 86400001 ''rstA'' ''Passw0rd!''
     = (reply 400 (Send ''Token expired or not valid''), exTokens)
   \<and> (\<exists>u'. fst (resetAccountPassword exBcrypt exTokens 86340000 ''rstA'' ''Passw0rd!'')
               = reply 200 (Json u') \<and> user_id u' = 1)
   \<and> deleteUser exTokens 86400001 1 ''delA'' = (reply 400 (Send ''Token is expired''), exTokens)
   \<and> deleteUser exTokens 86340000 1 ''delA'' = (reply 500 (Message prismaError), exTokens)
   \<and> (\<exists>u'. fst (activateAccount exTokens 90000000 ''actA'') = reply 200 (Json u')
             \<and> user_id u' = 1 \<and> user_isEmailVerified u')"
proof -
  have pw: "passwordRegex_test ''Passw0rd!''"
    by (simp add: passwordRegex_test_def isLetter_def isDigit_def isSpecial_def lineTerminator_def)
  have h1: "''Passw0rd!'' \<noteq> []
      \<and> findFirst (\<lambda>t. token_token t = ''rstA'') (passwordResetToken exTokens) = Some (exToken ''rstA'')
      \<and> 86400001 - token_createdAt (exToken ''rstA'') > 24 * 60 * 60 * 1000"
    by (simp add: exTokens_def exPeople_def emptyDb_def emptyTable_def alice_def bob_def exUser_def exToken_def exBcrypt_def findFirst_def)
  have h2: "''Passw0rd!'' \<noteq> [] \<and> passwordRegex_test ''Passw0rd!''
      \<and> findFirst (\<lambda>t. token_token t = ''rstA'') (passwordResetToken exTokens) = Some (exToken ''rstA'')
      \<and> 86340000 - token_createdAt (exToken ''rstA'') \<le> 24 * 60 * 60 * 1000
      \<and> findFirst (\<lambda>u. user_id u = token_userId (exToken ''rstA'')) (user exTokens) = Some alice"
    using pw by (simp add: exTokens_def exPeople_def emptyDb_def emptyTable_def alice_def bob_def exUser_def exToken_def exBcrypt_def findFirst_def)
  have h3: "findFirst (\<lambda>t. token_token t = ''delA'') (deleteToken exTokens) = Some (exToken ''delA'')
      \<and> 86400001 - token_createdAt (exToken ''delA'') > 24 * 60 * 60 * 1000"
    by (simp add: exTokens_def exPeople_def emptyDb_def emptyTable_def alice_def bob_def exUser_def exToken_def exBcrypt_def findFirst_def)
  have h4: "findFirst (\<lambda>t. token_token t = ''delA'') (deleteToken exTokens) = Some (exToken ''delA'')
      \<and> 86340000 - token_createdAt (exToken ''delA'') \<le> 24 * 60 * 60 * 1000
      \<and> token_userId (exToken ''delA'') = 1"
    by (simp add: exTokens_def exPeople_def emptyDb_def emptyTable_def alice_def bob_def exUser_def exToken_def exBcrypt_def findFirst_def)
  have refused: "user_delete 1 exTokens = None"
    by (simp add: exTokens_def exPeople_def emptyDb_def emptyTable_def alice_def bob_def exUser_def exToken_def findFirst_def user_delete_def delete_def)
  have h5: "findFirst (\<lambda>t. token_token t = ''actA'') (activateToken exTokens) = Some (exToken ''actA'')
      \<and> findFirst (\<lambda>u. user_id u = token_userId (exToken ''actA'')) (user exTokens) = Some alice
      \<and> findFirst (\<lambda>u. user_id u = token_userId (exToken ''actA'') \<and> user_isEmailVerified u)
            (user exTokens) = None"
    by (simp add: exTokens_def exPeople_def emptyDb_def emptyTable_def alice_def bob_def exUser_def exToken_def exBcrypt_def findFirst_def)
  have i: "token_userId (exToken ''rstA'') = 1" "token_userId (exToken ''actA'') = 1"
    by (simp_all add: exToken_def)
  note a = token_validity_window [of "''Passw0rd!''" "''rstA''" exTokens "exToken ''rstA''"
             86400001 exBcrypt alice 1, THEN conjunct1, THEN mp, OF h1]
  note b = token_validity_window [of "''Passw0rd!''" "''rstA''" exTokens "exToken ''rstA''"
             86340000 exBcrypt alice 1, THEN conjunct2, THEN conjunct1, THEN mp, OF h2,
             THEN conjunct1]
  note c = token_validity_window [of "''Passw0rd!''" "''delA''" exTokens "exToken ''delA''"
             86400001 exBcrypt alice 1, THEN conjunct2, THEN conjunct2, THEN conjunct1,
             THEN mp, OF h3]
  note d = token_validity_window [of "''Passw0rd!''" "''delA''" exTokens "exToken ''delA''"
             86340000 exBcrypt alice 1, THEN conjunct2, THEN conjunct2, THEN conjunct2,
             THEN conjunct1, THEN mp, OF h4, THEN conjunct2, unfolded refused option.case]
  note e = token_validity_window [of "''Passw0rd!''" "''actA''" exTokens "exToken ''actA''"
             90000000 exBcrypt alice 1, THEN conjunct2, THEN conjunct2, THEN conjunct2,
             THEN conjunct2, THEN mp, OF h5, THEN conjunct1]
  show ?thesis
    using a b c d e unfolding i by (intro conjI)
qed

text \<open>
  Claim C1 as stated fails for activation tokens: a token created 25 hours ago still
  activates the account.
\<close>

theorem activateAccount_old_token_counterexample:
  "exToken ''actA'' \<in> set (rows (activateToken exTokens))
   \<and> 90000000 - token_createdAt (exToken ''actA'') > 24 * 60 * 60 * 1000
   \<and> fst (activateAccount exTokens 90000000 ''actA'')
       = reply 200 (Json (alice\<lparr>user_isEmailVerified := True, user_updatedAt := 90000000\<rparr>))"
  by (simp add: exTokens_def exPeople_def emptyDb_def emptyTable_def alice_def bob_def exUser_def exToken_def exBcrypt_def findFirst_def activateAccount_def update_def)

text \<open>
  Claim C2 at a failing input. The first reset with the token sets its resolved timestamp;
  one hour later the same token resets the password again.
\<close>

theorem resetAccountPassword_reuse:
  "map token_resolvedAt (rows (passwordResetToken
       (snd (resetAccountPassword exBcrypt exTokens 3600000 ''rstA'' ''Passw0rd!''))))
     = [Some 3600000]
   \<and> fst (resetAccountPassword exBcrypt
            (snd (resetAccountPassword exBcrypt exTokens 3600000 ''rstA'' ''Passw0rd!''))
            7200000 ''rstA'' ''Hunter2!!'')
       = reply 200 (Json (alice\<lparr>user_hashedPassword := Some ''h:Hunter2!!'',
                                  user_updatedAt := 7200000\<rparr>))"
  by (simp add: exTokens_def exPeople_def emptyDb_def emptyTable_def alice_def bob_def exUser_def exToken_def exBcrypt_def findFirst_def resetAccountPassword_def update_def hours_over Let_def
        passwordRegex_test_def isLetter_def isDigit_def isSpecial_def lineTerminator_def)

text \<open>
  Claim C9. \<open>deleteUser\<close> accepts a deletion token only from the user it is bound to: an
  unexpired token of another user is answered with 403, any token of another user with 400 or
  403, both with the store unchanged, and an answer 200 means that the token is bound to the
  requester. More generally, every answer other than 400, 403 and 404 is for an unexpired
  token bound to the requester; the only deletion the handler then asks of the store is that
  of the requester, and its answer is the outcome of that deletion. An unknown token is
  answered with 404, the store unchanged.
\<close>

theorem deleteUser_bound_user:
  "(findFirst (\<lambda>t. token_token t = tok) (deleteToken d) = Some t
      \<and> now - token_createdAt t \<le> 24 * 60 * 60 * 1000 \<and> token_userId t \<noteq> me
      \<longrightarrow> deleteUser d now me tok = (reply 403 (Send ''Forbidden''), d))
   \<and> (findFirst (\<lambda>t. token_token t = tok) (deleteToken d) = Some t \<and> token_userId t \<noteq> me
      \<longrightarrow> status (fst (deleteUser d now me tok)) \<in> {400, 403}
          \<and> snd (deleteUser d now me tok) = d)
   \<and> (status (fst (deleteUser d now me tok)) = 200
      \<longrightarrow> (\<exists>t. findFirst (\<lambda>t. token_token t = tok) (deleteToken d) = Some t
               \<and> token_userId t = me))
   \<and> (status (fst (deleteUser d now me tok)) \<notin> {400, 403, 404}
      \<longrightarrow> (\<exists>t. findFirst (\<lambda>t. token_token t = tok) (deleteToken d) = Some t
               \<and> token_userId t = me \<and> now - token_createdAt t \<le> 24 * 60 * 60 * 1000))
   \<and> (findFirst (\<lambda>t. token_token t = tok) (deleteToken d) = Some t
      \<and> now - token_createdAt t \<le> 24 * 60 * 60 * 1000 \<and> token_userId t = me
      \<longrightarrow> deleteUser d now me tok
            = (case user_delete me d of
                 None \<Rightarrow> (reply 500 (Message prismaError), d)
               | Some d' \<Rightarrow> (reply 200 (Message ''account deleted''), d')))
   \<and> (findFirst (\<lambda>t. token_token t = tok) (deleteToken d) = None
      \<longrightarrow> deleteUser d now me tok = (reply 404 (Send ''Token not found''), d))"
proof (intro conjI impI)
  assume "findFirst (\<lambda>t. token_token t = tok) (deleteToken d) = Some t
      \<and> now - token_createdAt t \<le> 24 * 60 * 60 * 1000 \<and> token_userId t \<noteq> me"
  then show "deleteUser d now me tok = (reply 403 (Send ''Forbidden''), d)"
    by (simp add: deleteUser_def)
next
  assume a: "findFirst (\<lambda>t. token_token t = tok) (deleteToken d) = Some t \<and> token_userId t \<noteq> me"
  then show "status (fst (deleteUser d now me tok)) \<in> {400, 403}"
    by (simp add: deleteUser_def reply_def)
  from a show "snd (deleteUser d now me tok) = d"
    by (simp add: deleteUser_def)
next
  assume ok: "status (fst (deleteUser d now me tok)) = 200"
  show "\<exists>t. findFirst (\<lambda>t. token_token t = tok) (deleteToken d) = Some t \<and> token_userId t = me"
  proof (cases "findFirst (\<lambda>t. token_token t = tok) (deleteToken d)")
    case None
    with ok show ?thesis by (simp add: deleteUser_def reply_def)
  next
    case (Some t)
    with ok have "token_userId t = me"
      by (simp add: deleteUser_def reply_def split: if_splits)
    with Some show ?thesis by simp
  qed
next
  assume ok: "status (fst (deleteUser d now me tok)) \<notin> {400, 403, 404}"
  show "\<exists>t. findFirst (\<lambda>t. token_token t = tok) (deleteToken d) = Some t
               \<and> token_userId t = me \<and> now - token_createdAt t \<le> 24 * 60 * 60 * 1000"
  proof (cases "findFirst (\<lambda>t. token_token t = tok) (deleteToken d)")
    case None
    with ok show ?thesis by (simp add: deleteUser_def reply_def)
  next
    case (Some t)
    with ok have "token_userId t = me \<and> now - token_createdAt t \<le> 24 * 60 * 60 * 1000"
      by (simp add: deleteUser_def reply_def split: if_splits)
    with Some show ?thesis by simp
  qed
next
  assume "findFirst (\<lambda>t. token_token t = tok) (deleteToken d) = Some t
      \<and> now - token_createdAt t \<le> 24 * 60 * 60 * 1000 \<and> token_userId t = me"
  then show "deleteUser d now me tok
            = (case user_delete me d of
                 None \<Rightarrow> (reply 500 (Message prismaError), d)
               | Some d' \<Rightarrow> (reply 200 (Message ''account deleted''), d'))"
    by (simp add: deleteUser_accepted)
next
  assume "findFirst (\<lambda>t. token_token t = tok) (deleteToken d) = None"
  then show "deleteUser d now me tok = (reply 404 (Send ''Token not found''), d)"
    by (simp add: deleteUser_def)
qed

theorem deleteUser_bound_user_witness:
  "deleteUser exTokens 86340000 2 ''delA'' = (reply 403 (Send ''Forbidden''), exTokens)
   \<and> status (fst (deleteUser exTokens 86400001 2 ''delA'')) \<in> {400, 403}
   \<and> snd (deleteUser exTokens 86400001 2 ''delA'') = exTokens
   \<and> status (fst (deleteUser exTokens 86340000 1 ''delA'')) \<notin> {400, 403, 404}
   \<and> (\<exists>t. findFirst (\<lambda>t. token_token t = ''delA'') (deleteToken exTokens) = Some t
          \<and> token_userId t = 1 \<and> 86340000 - token_createdAt t \<le> 24 * 60 * 60 * 1000)
   \<and> deleteUser exTokens 86340000 1 ''delA'' = (reply 500 (Message prismaError), exTokens)
   \<and> deleteUser exTokens 86340000 1 ''delZ'' = (reply 404 (Send ''Token not found''), exTokens)"
proof -
  have h1: "findFirst (\<lambda>t. token_token t = ''delA'') (deleteToken exTokens) = Some (exToken ''delA'')
      \<and> 86340000 - token_createdAt (exToken ''delA'') \<le> 24 * 60 * 60 * 1000
      \<and> token_userId (exToken ''delA'') \<noteq> 2"
    by (simp add: exTokens_def exPeople_def emptyDb_def emptyTable_def alice_def bob_def exUser_def exToken_def exBcrypt_def findFirst_def)
  have h2: "findFirst (\<lambda>t. token_token t = ''delA'') (deleteToken exTokens) = Some (exToken ''delA'')
      \<and> token_userId (exToken ''delA'') \<noteq> 2"
    by (simp add: exTokens_def exPeople_def emptyDb_def emptyTable_def alice_def bob_def exUser_def exToken_def exBcrypt_def findFirst_def)
  have refused: "user_delete 1 exTokens = None"
    by (simp add: exTokens_def exPeople_def emptyDb_def emptyTable_def alice_def bob_def exUser_def exToken_def findFirst_def user_delete_def delete_def)
  have h3: "status (fst (deleteUser exTokens 86340000 1 ''delA'')) \<notin> {400, 403, 404}"
    by (simp add: exTokens_def exPeople_def emptyDb_def emptyTable_def alice_def bob_def exUser_def exToken_def exBcrypt_def findFirst_def deleteUser_def user_delete_def delete_def reply_def Let_def)
  have h4: "findFirst (\<lambda>t. token_token t = ''delA'') (deleteToken exTokens) = Some (exToken ''delA'')
      \<and> 86340000 - token_createdAt (exToken ''delA'') \<le> 24 * 60 * 60 * 1000
      \<and> token_userId (exToken ''delA'') = 1"
    by (simp add: exTokens_def exPeople_def emptyDb_def emptyTable_def alice_def bob_def exUser_def exToken_def exBcrypt_def findFirst_def)
  have h5: "findFirst (\<lambda>t. token_token t = ''delZ'') (deleteToken exTokens) = None"
    by (simp add: exTokens_def exPeople_def emptyDb_def emptyTable_def alice_def bob_def exUser_def exToken_def exBcrypt_def findFirst_def)
  note a = deleteUser_bound_user [of "''delA''" exTokens "exToken ''delA''" 86340000 2,
             THEN conjunct1, THEN mp, OF h1]
  note b = deleteUser_bound_user [of "''delA''" exTokens "exToken ''delA''" 86400001 2,
             THEN conjunct2, THEN conjunct1, THEN mp, OF h2]
  note c = deleteUser_bound_user [of "''delA''" exTokens "exToken ''delA''" 86340000 1,
             THEN conjunct2, THEN conjunct2, THEN conjunct2, THEN conjunct1, THEN mp, OF h3]
  note e = deleteUser_bound_user [of "''delA''" exTokens "exToken ''delA''" 86340000 1,
             THEN conjunct2, THEN conjunct2, THEN conjunct2, THEN conjunct2, THEN conjunct1,
             THEN mp, OF h4, unfolded refused option.case]
  note f = deleteUser_bound_user [of "''delZ''" exTokens "exToken ''delA''" 86340000 1,
             THEN conjunct2, THEN conjunct2, THEN conjunct2, THEN conjunct2, THEN conjunct2,
             THEN mp, OF h5]
  show ?thesis
    using a b c e f h3 by (intro conjI) simp_all
qed

section \<open>Sessions: issue and verification\<close>

lemma js_split_none: "c \<notin> set xs \<Longrightarrow> js_split c xs = [xs]"
  by (induction xs) auto

lemma protect_bearer:
  "CHR '' '' \<notin> set tok \<Longrightarrow>
   protect jwt e d now (Some (''Bearer '' @ tok))
     = (case jwt_verify jwt now tok (JWT_SECRET e) of
          None \<Rightarrow> Inl (reply 401 (Send ''Unauthorized''))
        | Some decoded \<Rightarrow>
            (case findFirst (\<lambda>u. user_id u = jwt_id decoded) (user d) of
               None \<Rightarrow> Inl (reply 401 (Send ''Unauthorized''))
             | Some u \<Rightarrow> Inr u))"
  by (simp add: protect_def startsWith_def js_split_none)

text \<open>
  Claim C8, as the code has it. \<open>generateToken\<close> signs, with the secret of the environment,
  the payload that carries the user id, the second of issue, and an expiry 30 days later.
  \<open>protect\<close> answers 401 for a bearer token whose signature is not the secret's or whose
  expiry has come. Otherwise it looks the embedded id up in the store: it passes the stored
  user with that id on, and answers 401 as well when no such user is stored. A token that
  \<open>generateToken\<close> issued for a stored user is accepted exactly until its 30 days are over.
\<close>

theorem session_issue_verify:
  "generateToken jwt e now ident
     = jwt_encode jwt
         (\<lparr>jwt_id = ident, jwt_iat = now div 1000, jwt_exp = now div 1000 + 30 * 24 * 60 * 60\<rparr>,
          jwt_mac jwt (JWT_SECRET e)
            \<lparr>jwt_id = ident, jwt_iat = now div 1000, jwt_exp = now div 1000 + 30 * 24 * 60 * 60\<rparr>)
   \<and> (CHR '' '' \<notin> set tok \<and> jwt_decode jwt tok = Some (p, s)
        \<and> (s \<noteq> jwt_mac jwt (JWT_SECRET e) p \<or> jwt_exp p \<le> now div 1000)
      \<longrightarrow> protect jwt e d now (Some (''Bearer '' @ tok)) = Inl (reply 401 (Send ''Unauthorized'')))
   \<and> (CHR '' '' \<notin> set tok \<and> jwt_decode jwt tok = Some (p, s)
        \<and> s = jwt_mac jwt (JWT_SECRET e) p \<and> now div 1000 < jwt_exp p
        \<and> findFirst (\<lambda>u. user_id u = jwt_id p) (user d) = Some u
      \<longrightarrow> protect jwt e d now (Some (''Bearer '' @ tok)) = Inr u \<and> user_id u = jwt_id p)
   \<and> (CHR '' '' \<notin> set tok \<and> jwt_decode jwt tok = Some (p, s)
        \<and> s = jwt_mac jwt (JWT_SECRET e) p \<and> now div 1000 < jwt_exp p
        \<and> findFirst (\<lambda>u. user_id u = jwt_id p) (user d) = None
      \<longrightarrow> protect jwt e d now (Some (''Bearer '' @ tok)) = Inl (reply 401 (Send ''Unauthorized'')))
   \<and> (jwt_decode jwt (generateToken jwt e now ident)
          = Some (\<lparr>jwt_id = ident, jwt_iat = now div 1000,
                    jwt_exp = now div 1000 + 30 * 24 * 60 * 60\<rparr>,
                  jwt_mac jwt (JWT_SECRET e)
                    \<lparr>jwt_id = ident, jwt_iat = now div 1000,
                      jwt_exp = now div 1000 + 30 * 24 * 60 * 60\<rparr>)
        \<and> CHR '' '' \<notin> set (generateToken jwt e now ident)
        \<and> findFirst (\<lambda>u. user_id u = ident) (user d) = Some u
      \<longrightarrow> (protect jwt e d now' (Some (''Bearer '' @ generateToken jwt e now ident)) = Inr u)
            = (now' div 1000 < now div 1000 + 30 * 24 * 60 * 60))"
proof (intro conjI impI)
  show "generateToken jwt e now ident
     = jwt_encode jwt
         (\<lparr>jwt_id = ident, jwt_iat = now div 1000, jwt_exp = now div 1000 + 30 * 24 * 60 * 60\<rparr>,
          jwt_mac jwt (JWT_SECRET e)
            \<lparr>jwt_id = ident, jwt_iat = now div 1000, jwt_exp = now div 1000 + 30 * 24 * 60 * 60\<rparr>)"
    by (simp add: generateToken_def jwt_sign_def Let_def)
next
  assume a: "CHR '' '' \<notin> set tok \<and> jwt_decode jwt tok = Some (p, s)
        \<and> (s \<noteq> jwt_mac jwt (JWT_SECRET e) p \<or> jwt_exp p \<le> now div 1000)"
  then have ns: "CHR '' '' \<notin> set tok" by (rule conjunct1)
  from a show "protect jwt e d now (Some (''Bearer '' @ tok)) = Inl (reply 401 (Send ''Unauthorized''))"
    unfolding protect_bearer [OF ns] by (auto simp: jwt_verify_def)
next
  assume a: "CHR '' '' \<notin> set tok \<and> jwt_decode jwt tok = Some (p, s)
        \<and> s = jwt_mac jwt (JWT_SECRET e) p \<and> now div 1000 < jwt_exp p
        \<and> findFirst (\<lambda>u. user_id u = jwt_id p) (user d) = Some u"
  then have ns: "CHR '' '' \<notin> set tok" by (rule conjunct1)
  from a show "protect jwt e d now (Some (''Bearer '' @ tok)) = Inr u"
    unfolding protect_bearer [OF ns] by (simp add: jwt_verify_def)
  from a show "user_id u = jwt_id p"
    using find_SomeD [of "\<lambda>u. user_id u = jwt_id p" "rows (user d)" u]
    by (simp add: findFirst_def)
next
  assume a: "CHR '' '' \<notin> set tok \<and> jwt_decode jwt tok = Some (p, s)
        \<and> s = jwt_mac jwt (JWT_SECRET e) p \<and> now div 1000 < jwt_exp p
        \<and> findFirst (\<lambda>u. user_id u = jwt_id p) (user d) = None"
  then have ns: "CHR '' '' \<notin> set tok" by (rule conjunct1)
  from a show "protect jwt e d now (Some (''Bearer '' @ tok)) = Inl (reply 401 (Send ''Unauthorized''))"
    unfolding protect_bearer [OF ns] by (simp add: jwt_verify_def)
next
  assume a: "jwt_decode jwt (generateToken jwt e now ident)
          = Some (\<lparr>jwt_id = ident, jwt_iat = now div 1000,
                    jwt_exp = now div 1000 + 30 * 24 * 60 * 60\<rparr>,
                  jwt_mac jwt (JWT_SECRET e)
                    \<lparr>jwt_id = ident, jwt_iat = now div 1000,
                      jwt_exp = now div 1000 + 30 * 24 * 60 * 60\<rparr>)
        \<and> CHR '' '' \<notin> set (generateToken jwt e now ident)
        \<and> findFirst (\<lambda>u. user_id u = ident) (user d) = Some u"
  let ?p = "\<lparr>jwt_id = ident, jwt_iat = now div 1000, jwt_exp = now div 1000 + 30 * 24 * 60 * 60\<rparr>"
  from a have dec: "jwt_decode jwt (generateToken jwt e now ident)
                      = Some (?p, jwt_mac jwt (JWT_SECRET e) ?p)"
    by (rule conjunct1)
  have v: "jwt_verify jwt now' (generateToken jwt e now ident) (JWT_SECRET e)
             = (if now div 1000 + 30 * 24 * 60 * 60 \<le> now' div 1000 then None else Some ?p)"
    by (simp add: jwt_verify_def dec)
  from a have ns: "CHR '' '' \<notin> set (generateToken jwt e now ident)"
    by simp
  from a have "protect jwt e d now' (Some (''Bearer '' @ generateToken jwt e now ident))
                 = (if now div 1000 + 30 * 24 * 60 * 60 \<le> now' div 1000
                    then Inl (reply 401 (Send ''Unauthorized'')) else Inr u)"
    unfolding protect_bearer [OF ns] by (simp add: v)
  then show "(protect jwt e d now' (Some (''Bearer '' @ generateToken jwt e now ident)) = Inr u)
            = (now' div 1000 < now div 1000 + 30 * 24 * 60 * 60)"
    by auto
qed

theorem session_issue_verify_witness:
  "protect exJwt exEnv exPeople 1000 (Some ''Bearer forged'') = Inl (reply 401 (Send ''Unauthorized''))
   \<and> protect exJwt exEnv exPeople 2592000000 (Some ''Bearer t1'')
        = Inl (reply 401 (Send ''Unauthorized''))
   \<and> protect exJwt exEnv exPeople 1000 (Some ''Bearer t1'') = Inr alice
   \<and> protect exJwt exEnv exPeople 1000 (Some ''Bearer t9'') = Inl (reply 401 (Send ''Unauthorized''))
   \<and> protect exJwt exEnv exPeople 2591999999 (Some (''Bearer '' @ generateToken exJwt exEnv 0 1))
        = Inr alice"
proof -
  have h1: "CHR '' '' \<notin> set ''forged'' \<and> jwt_decode exJwt ''forged'' = Some (exPayload 1, ''guess'')
        \<and> (''guess'' \<noteq> jwt_mac exJwt (JWT_SECRET exEnv) (exPayload 1)
            \<or> jwt_exp (exPayload 1) \<le> 1000 div 1000)"
    by (simp add: exEnv_def exJwt_def exPayload_def exPeople_def emptyDb_def emptyTable_def alice_def bob_def exUser_def findFirst_def)
  have h2: "CHR '' '' \<notin> set ''t1'' \<and> jwt_decode exJwt ''t1'' = Some (exPayload 1, ''s3cret'')
        \<and> (''s3cret'' \<noteq> jwt_mac exJwt (JWT_SECRET exEnv) (exPayload 1)
            \<or> jwt_exp (exPayload 1) \<le> 2592000000 div 1000)"
    by (simp add: exEnv_def exJwt_def exPayload_def exPeople_def emptyDb_def emptyTable_def alice_def bob_def exUser_def findFirst_def)
  have h3: "CHR '' '' \<notin> set ''t1'' \<and> jwt_decode exJwt ''t1'' = Some (exPayload 1, ''s3cret'')
        \<and> ''s3cret'' = jwt_mac exJwt (JWT_SECRET exEnv) (exPayload 1)
        \<and> 1000 div 1000 < jwt_exp (exPayload 1)
        \<and> findFirst (\<lambda>u. user_id u = jwt_id (exPayload 1)) (user exPeople) = Some alice"
    by (simp add: exEnv_def exJwt_def exPayload_def exPeople_def emptyDb_def emptyTable_def alice_def bob_def exUser_def findFirst_def)
  have h4: "CHR '' '' \<notin> set ''t9'' \<and> jwt_decode exJwt ''t9'' = Some (exPayload 9, ''s3cret'')
        \<and> ''s3cret'' = jwt_mac exJwt (JWT_SECRET exEnv) (exPayload 9)
        \<and> 1000 div 1000 < jwt_exp (exPayload 9)
        \<and> findFirst (\<lambda>u. user_id u = jwt_id (exPayload 9)) (user exPeople) = None"
    by (simp add: exEnv_def exJwt_def exPayload_def exPeople_def emptyDb_def emptyTable_def alice_def bob_def exUser_def findFirst_def)
  have h5: "jwt_decode exJwt (generateToken exJwt exEnv 0 1)
          = Some (\<lparr>jwt_id = 1, jwt_iat = 0 div 1000,
                    jwt_exp = 0 div 1000 + 30 * 24 * 60 * 60\<rparr>,
                  jwt_mac exJwt (JWT_SECRET exEnv)
                    \<lparr>jwt_id = 1, jwt_iat = 0 div 1000,
                      jwt_exp = 0 div 1000 + 30 * 24 * 60 * 60\<rparr>)
        \<and> CHR '' '' \<notin> set (generateToken exJwt exEnv 0 1)
        \<and> findFirst (\<lambda>u. user_id u = 1) (user exPeople) = Some alice"
    by (simp add: exEnv_def exJwt_def exPayload_def exPeople_def emptyDb_def emptyTable_def alice_def bob_def exUser_def findFirst_def generateToken_def jwt_sign_def Let_def)
  have t: "(2591999999 :: int) div 1000 < 0 div 1000 + 30 * 24 * 60 * 60"
    by simp
  note a = session_issue_verify [of exJwt exEnv 1000 1 "''forged''" "exPayload 1" "''guess''"
             exPeople alice 0, THEN conjunct2, THEN conjunct1, THEN mp, OF h1]
  note b = session_issue_verify [of exJwt exEnv 2592000000 1 "''t1''" "exPayload 1" "''s3cret''"
             exPeople alice 0, THEN conjunct2, THEN conjunct1, THEN mp, OF h2]
  note c = session_issue_verify [of exJwt exEnv 1000 1 "''t1''" "exPayload 1" "''s3cret''"
             exPeople alice 0, THEN conjunct2, THEN conjunct2, THEN conjunct1, THEN mp, OF h3,
             THEN conjunct1]
  note d = session_issue_verify [of exJwt exEnv 1000 1 "''t9''" "exPayload 9" "''s3cret''"
             exPeople alice 0, THEN conjunct2, THEN conjunct2, THEN conjunct2, THEN conjunct1,
             THEN mp, OF h4]
  note e = session_issue_verify [of exJwt exEnv 0 1 "''t1''" "exPayload 1" "''s3cret''"
             exPeople alice 2591999999, THEN conjunct2, THEN conjunct2, THEN conjunct2,
             THEN conjunct2, THEN mp, OF h5, THEN iffD2, OF t]
  show ?thesis
    using a b c d e by simp
qed

text \<open>
  Claim C8 as stated fails when the user of the token is gone: the token verifies, and
  \<open>protect\<close> answers 401 instead of yielding the embedded id.
\<close>

theorem protect_deleted_user_counterexample:
  "jwt_verify exJwt 1000 ''t9'' (JWT_SECRET exEnv) = Some (exPayload 9)
   \<and> protect exJwt exEnv exPeople 1000 (Some ''Bearer t9'') = Inl (reply 401 (Send ''Unauthorized''))"
  by (simp add: exEnv_def exJwt_def exPayload_def exPeople_def emptyDb_def emptyTable_def alice_def bob_def exUser_def findFirst_def jwt_verify_def protect_def startsWith_def)

section \<open>Logging in\<close>

text \<open>
  Claim C3. For a stored user whose email is given, \<open>loginUser\<close> fails with status 400 and
  sets no session header both when the password does not match the stored hash and when the
  account has no password hash (it was created through a provider). The two answers carry the
  same status; their texts are those of the source.
\<close>

theorem loginUser_invalid_credentials:
  "(email \<noteq> [] \<and> password \<noteq> [] \<and> emailRegex_test email
      \<and> findFirst (\<lambda>u. user_email u = email) (user d) = Some u
      \<and> user_provider u = DEFAULT \<and> user_hashedPassword u = Some h \<and> h \<noteq> []
      \<and> \<not> bcrypt_compare bc password h
      \<longrightarrow> loginUser jwt e bc d now email password
            = reply 400 (Send ''Incorrect email or password''))
   \<and> (email \<noteq> [] \<and> password \<noteq> [] \<and> emailRegex_test email
      \<and> findFirst (\<lambda>u. user_email u = email) (user d) = Some u
      \<and> user_hashedPassword u = None
      \<longrightarrow> loginUser jwt e bc d now email password
            = reply 400 (Send ''Account signed up using a provider''))
   \<and> (email \<noteq> [] \<and> password \<noteq> [] \<and> emailRegex_test email
      \<and> findFirst (\<lambda>u. user_email u = email) (user d) = Some u
      \<and> (user_hashedPassword u = None
          \<or> user_provider u = DEFAULT \<and> user_hashedPassword u = Some h \<and> h \<noteq> []
            \<and> \<not> bcrypt_compare bc password h)
      \<longrightarrow> status (loginUser jwt e bc d now email password) = 400
          \<and> authorization (loginUser jwt e bc d now email password) = None)"
  by (auto simp: loginUser_def reply_def)

theorem loginUser_invalid_credentials_witness:
  "loginUser exJwt exEnv exBcrypt exAccounts 0 ''alice@example.com'' ''Wr0ng!pass''
     = reply 400 (Send ''Incorrect email or password'')
   \<and> loginUser exJwt exEnv exBcrypt exAccounts 0 ''carol@example.com'' ''Passw0rd!''
     = reply 400 (Send ''Account signed up using a provider'')
   \<and> status (loginUser exJwt exEnv exBcrypt exAccounts 0 ''carol@example.com'' ''Passw0rd!'') = 400
   \<and> authorization (loginUser exJwt exEnv exBcrypt exAccounts 0 ''carol@example.com'' ''Passw0rd!'')
       = None"
proof -
  have m1: "emailRegex_test ''alice@example.com''" and m2: "emailRegex_test ''carol@example.com''"
    by (simp_all add: emailRegex_test_def emailChar_def isSpace_def)
  have h1: "''alice@example.com'' \<noteq> [] \<and> ''Wr0ng!pass'' \<noteq> [] \<and> emailRegex_test ''alice@example.com''
      \<and> findFirst (\<lambda>u. user_email u = ''alice@example.com'') (user exAccounts) = Some alice
      \<and> user_provider alice = DEFAULT \<and> user_hashedPassword alice = Some ''h:Passw0rd!''
      \<and> ''h:Passw0rd!'' \<noteq> []
      \<and> \<not> bcrypt_compare exBcrypt ''Wr0ng!pass'' ''h:Passw0rd!''"
    using m1 by (simp add: exAccounts_def emptyDb_def alice_def carol_def exUser_def findFirst_def
                   exBcrypt_def)
  have h2: "''carol@example.com'' \<noteq> [] \<and> ''Passw0rd!'' \<noteq> [] \<and> emailRegex_test ''carol@example.com''
      \<and> findFirst (\<lambda>u. user_email u = ''carol@example.com'') (user exAccounts) = Some carol
      \<and> user_hashedPassword carol = None"
    using m2 by (simp add: exAccounts_def emptyDb_def alice_def carol_def exUser_def findFirst_def)
  have h3: "''carol@example.com'' \<noteq> [] \<and> ''Passw0rd!'' \<noteq> [] \<and> emailRegex_test ''carol@example.com''
      \<and> findFirst (\<lambda>u. user_email u = ''carol@example.com'') (user exAccounts) = Some carol
      \<and> (user_hashedPassword carol = None
          \<or> user_provider carol = DEFAULT \<and> user_hashedPassword carol = Some ''x'' \<and> ''x'' \<noteq> []
            \<and> \<not> bcrypt_compare exBcrypt ''Passw0rd!'' ''x'')"
    using h2 by simp
  note a = loginUser_invalid_credentials [of "''alice@example.com''" "''Wr0ng!pass''" exAccounts
             alice "''h:Passw0rd!''" exBcrypt exJwt exEnv 0, THEN conjunct1, THEN mp, OF h1]
  note b = loginUser_invalid_credentials [of "''carol@example.com''" "''Passw0rd!''" exAccounts
             carol "''x''" exBcrypt exJwt exEnv 0, THEN conjunct2, THEN conjunct1, THEN mp, OF h2]
  note c = loginUser_invalid_credentials [of "''carol@example.com''" "''Passw0rd!''" exAccounts
             carol "''x''" exBcrypt exJwt exEnv 0, THEN conjunct2, THEN conjunct2, THEN mp, OF h3]
  show ?thesis
    using a b c by (intro conjI) simp_all
qed

section \<open>Mail failures\<close>

lemma registerUser_mail_fails:
  assumes "sendMail e createTransport ''Verify your Post Room account email'' email
             (VerifyHtml (template origin @ ''/activate/'' @ tokenString uuids)) = Some m"
  shows "status (fst (registerUser jwt e bc createTransport d now origin uuids email password))
           \<notin> {200, 201}
         \<and> authorization (fst (registerUser jwt e bc createTransport d now origin uuids email password))
           = None"
  using assms
  by (simp add: registerUser_def reply_def Let_def create_def createToken_def)

lemma registerUser_mail_fails_500:
  assumes "sendMail e createTransport ''Verify your Post Room account email'' email
             (VerifyHtml (template origin @ ''/activate/'' @ tokenString uuids)) = Some m"
    and "email \<noteq> [] \<and> password \<noteq> [] \<and> emailRegex_test email
         \<and> findFirst (\<lambda>u. user_email u = email) (user d) = None
         \<and> passwordRegex_test password
         \<and> findFirst (\<lambda>x. token_token x = tokenString uuids) (activateToken d) = None"
  shows "fst (registerUser jwt e bc createTransport d now origin uuids email password)
           = reply 500 (Message m)"
  using assms
  by (simp add: registerUser_def Let_def create_def createToken_def)

lemma resetPasswordRequest_mail_fails:
  assumes "sendMail e createTransport ''Password reset request for Post Room account'' email
             (ResetHtml (template origin @ ''/reset-password/'' @ tokenString uuids)) = Some m"
  shows "status (fst (resetPasswordRequest e createTransport d now origin uuids email)) \<noteq> 200"
proof (cases "findFirst (\<lambda>u. user_email u = email) (user d)")
  case None
  then show ?thesis
    by (simp add: resetPasswordRequest_def reply_def)
next
  case (Some u)
  then have "user_email u = email"
    using find_SomeD [of "\<lambda>u. user_email u = email" "rows (user d)" u]
    by (simp add: findFirst_def)
  with Some assms show ?thesis
    by (simp add: resetPasswordRequest_def reply_def Let_def create_def createToken_def)
qed

lemma resetPasswordRequest_mail_fails_500:
  assumes "sendMail e createTransport ''Password reset request for Post Room account'' email
             (ResetHtml (template origin @ ''/reset-password/'' @ tokenString uuids)) = Some m"
    and "email \<noteq> [] \<and> emailRegex_test email
         \<and> findFirst (\<lambda>u. user_email u = email) (user d) = Some u \<and> user_provider u = DEFAULT
         \<and> findFirst (\<lambda>x. token_token x = tokenString uuids) (passwordResetToken d) = None"
  shows "fst (resetPasswordRequest e createTransport d now origin uuids email)
           = reply 500 (Message m)"
proof -
  from assms(2) have "user_email u = email"
    using find_SomeD [of "\<lambda>u. user_email u = email" "rows (user d)" u]
    by (simp add: findFirst_def)
  with assms show ?thesis
    by (simp add: resetPasswordRequest_def Let_def create_def createToken_def)
qed

lemma sendAccountDeleteEmail_mail_fails:
  assumes "sendMail e createTransport ''Account delete confirmation for Post Room account'' email
             (DeleteHtml (''http://localhost:3000/delete-account/'' @ tokenString uuids)) = Some m"
  shows "status (fst (sendAccountDeleteEmail e createTransport d now uuids me email)) \<noteq> 200"
  using assms
  by (simp add: sendAccountDeleteEmail_def reply_def Let_def create_def createToken_def)

lemma sendAccountDeleteEmail_mail_fails_500:
  assumes "sendMail e createTransport ''Account delete confirmation for Post Room account'' email
             (DeleteHtml (''http://localhost:3000/delete-account/'' @ tokenString uuids)) = Some m"
    and "findFirst (\<lambda>x. token_token x = tokenString uuids) (deleteToken d) = None"
  shows "fst (sendAccountDeleteEmail e createTransport d now uuids me email)
           = reply 500 (Message m)"
  using assms
  by (simp add: sendAccountDeleteEmail_def Let_def create_def createToken_def)

text \<open>
  The failure is an answer only: the rows written before the mail is sent, the new user and
  the activation token, stay in the store.
\<close>

lemma registerUser_mail_fails_keeps_rows:
  assumes "sendMail e createTransport ''Verify your Post Room account email'' email
             (VerifyHtml (template origin @ ''/activate/'' @ tokenString uuids)) = Some m"
    and "email \<noteq> [] \<and> password \<noteq> [] \<and> emailRegex_test email
         \<and> findFirst (\<lambda>u. user_email u = email) (user d) = None
         \<and> passwordRegex_test password
         \<and> findFirst (\<lambda>x. token_token x = tokenString uuids) (activateToken d) = None"
  shows "length (rows (user (snd (registerUser jwt e bc createTransport d now origin uuids
                                     email password))))
           = length (rows (user d)) + 1
         \<and> map token_token (rows (activateToken (snd (registerUser jwt e bc createTransport d now
                                     origin uuids email password))))
           = map token_token (rows (activateToken d)) @ [tokenString uuids]"
  using assms
  by (simp add: registerUser_def Let_def create_def createToken_def)

text \<open>
  Claim C7. When the call that sends the mail fails, the token-issuing handler does not
  answer with success. For each of \<open>registerUser\<close>, \<open>resetPasswordRequest\<close> and
  \<open>sendAccountDeleteEmail\<close> the hypothesis is that the one call of \<open>sendMail\<close> that the
  handler makes, with its subject, its recipient and its link, fails with the message \<open>m\<close>.
  Then \<open>registerUser\<close> answers neither 200 nor 201 and sets no session header,
  \<open>resetPasswordRequest\<close> and \<open>sendAccountDeleteEmail\<close> do not answer 200; and a request
  that gets as far as sending the mail is answered with status 500 and the message \<open>m\<close>.
\<close>

theorem mail_failure_fails_request:
  "(sendMail e createTransport ''Verify your Post Room account email'' email
        (VerifyHtml (template origin @ ''/activate/'' @ tokenString uuids)) = Some m
     \<longrightarrow> status (fst (registerUser jwt e bc createTransport d now origin uuids email password))
           \<notin> {200, 201}
         \<and> authorization (fst (registerUser jwt e bc createTransport d now origin uuids email
                                   password)) = None
         \<and> (email \<noteq> [] \<and> password \<noteq> [] \<and> emailRegex_test email
             \<and> findFirst (\<lambda>u. user_email u = email) (user d) = None
             \<and> passwordRegex_test password
             \<and> findFirst (\<lambda>x. token_token x = tokenString uuids) (activateToken d) = None
            \<longrightarrow> fst (registerUser jwt e bc createTransport d now origin uuids email password)
                  = reply 500 (Message m)))
   \<and> (sendMail e createTransport ''Password reset request for Post Room account'' email
        (ResetHtml (template origin @ ''/reset-password/'' @ tokenString uuids)) = Some m
     \<longrightarrow> status (fst (resetPasswordRequest e createTransport d now origin uuids email)) \<noteq> 200
         \<and> (email \<noteq> [] \<and> emailRegex_test email
             \<and> findFirst (\<lambda>u. user_email u = email) (user d) = Some u
             \<and> user_provider u = DEFAULT
             \<and> findFirst (\<lambda>x. token_token x = tokenString uuids) (passwordResetToken d) = None
            \<longrightarrow> fst (resetPasswordRequest e createTransport d now origin uuids email)
                  = reply 500 (Message m)))
   \<and> (sendMail e createTransport ''Account delete confirmation for Post Room account'' email
        (DeleteHtml (''http://localhost:3000/delete-account/'' @ tokenString uuids)) = Some m
     \<longrightarrow> status (fst (sendAccountDeleteEmail e createTransport d now uuids me email)) \<noteq> 200
         \<and> (findFirst (\<lambda>x. token_token x = tokenString uuids) (deleteToken d) = None
            \<longrightarrow> fst (sendAccountDeleteEmail e createTransport d now uuids me email)
                  = reply 500 (Message m)))"
proof (intro conjI impI)
  assume f: "sendMail e createTransport ''Verify your Post Room account email'' email
        (VerifyHtml (template origin @ ''/activate/'' @ tokenString uuids)) = Some m"
  note r = registerUser_mail_fails [OF f, of jwt bc d now password]
  show "status (fst (registerUser jwt e bc createTransport d now origin uuids email password))
          \<notin> {200, 201}"
    by (rule r [THEN conjunct1])
  show "authorization (fst (registerUser jwt e bc createTransport d now origin uuids email
                                   password)) = None"
    by (rule r [THEN conjunct2])
  assume "email \<noteq> [] \<and> password \<noteq> [] \<and> emailRegex_test email
             \<and> findFirst (\<lambda>u. user_email u = email) (user d) = None
             \<and> passwordRegex_test password
             \<and> findFirst (\<lambda>x. token_token x = tokenString uuids) (activateToken d) = None"
  then show "fst (registerUser jwt e bc createTransport d now origin uuids email password)
                  = reply 500 (Message m)"
    by (rule registerUser_mail_fails_500 [OF f])
next
  assume f: "sendMail e createTransport ''Password reset request for Post Room account'' email
        (ResetHtml (template origin @ ''/reset-password/'' @ tokenString uuids)) = Some m"
  show "status (fst (resetPasswordRequest e createTransport d now origin uuids email)) \<noteq> 200"
    by (rule resetPasswordRequest_mail_fails [OF f])
  assume "email \<noteq> [] \<and> emailRegex_test email
             \<and> findFirst (\<lambda>u. user_email u = email) (user d) = Some u
             \<and> user_provider u = DEFAULT
             \<and> findFirst (\<lambda>x. token_token x = tokenString uuids) (passwordResetToken d) = None"
  then show "fst (resetPasswordRequest e createTransport d now origin uuids email)
                  = reply 500 (Message m)"
    by (rule resetPasswordRequest_mail_fails_500 [OF f])
next
  assume f: "sendMail e createTransport ''Account delete confirmation for Post Room account'' email
        (DeleteHtml (''http://localhost:3000/delete-account/'' @ tokenString uuids)) = Some m"
  show "status (fst (sendAccountDeleteEmail e createTransport d now uuids me email)) \<noteq> 200"
    by (rule sendAccountDeleteEmail_mail_fails [OF f])
  assume "findFirst (\<lambda>x. token_token x = tokenString uuids) (deleteToken d) = None"
  then show "fst (sendAccountDeleteEmail e createTransport d now uuids me email)
                  = reply 500 (Message m)"
    by (rule sendAccountDeleteEmail_mail_fails_500 [OF f])
qed

theorem mail_failure_fails_request_witness:
  "sendMail exEnv exBounce ''Verify your Post Room account email'' ''alice@example.com''
       (VerifyHtml (''https://post.room/activate/aaaabbbbccccdddd'')) = None
   \<and> fst (registerUser exJwt exEnv exBcrypt exBounce exAccounts 5 (Some ''https://post.room'')
          (''aaaa-bbbb'', ''cccc-dddd'') ''erin@example.com'' ''Passw0rd!'')
     = reply 500 (Message ''550 mailbox unavailable'')
   \<and> fst (resetPasswordRequest exEnv exDown exAccounts 5 (Some ''https://post.room'')
          (''aaaa-bbbb'', ''cccc-dddd'') ''alice@example.com'')
     = reply 500 (Message ''ECONNREFUSED'')
   \<and> fst (sendAccountDeleteEmail exEnv exDown exAccounts 5 (''aaaa-bbbb'', ''cccc-dddd'') 1
          ''alice@example.com'')
     = reply 500 (Message ''ECONNREFUSED'')"
proof -
  have up: "sendMail exEnv exBounce ''Verify your Post Room account email'' ''alice@example.com''
       (VerifyHtml (''https://post.room/activate/aaaabbbbccccdddd'')) = None"
    by (simp add: sendMail_def exBounce_def Let_def)
  have f1: "sendMail exEnv exBounce ''Verify your Post Room account email'' ''erin@example.com''
        (VerifyHtml (template (Some ''https://post.room'') @ ''/activate/''
                       @ tokenString (''aaaa-bbbb'', ''cccc-dddd'')))
          = Some ''550 mailbox unavailable''"
    by (simp add: sendMail_def exBounce_def Let_def)
  have f2: "sendMail exEnv exDown ''Password reset request for Post Room account''
        ''alice@example.com''
        (ResetHtml (template (Some ''https://post.room'') @ ''/reset-password/''
                      @ tokenString (''aaaa-bbbb'', ''cccc-dddd''))) = Some ''ECONNREFUSED''"
    by (simp add: sendMail_def exDown_def Let_def)
  have f3: "sendMail exEnv exDown ''Account delete confirmation for Post Room account''
        ''alice@example.com''
        (DeleteHtml (''http://localhost:3000/delete-account/''
                       @ tokenString (''aaaa-bbbb'', ''cccc-dddd''))) = Some ''ECONNREFUSED''"
    by (simp add: sendMail_def exDown_def Let_def)
  have pw: "passwordRegex_test ''Passw0rd!''"
    by (simp add: passwordRegex_test_def isLetter_def isDigit_def isSpecial_def lineTerminator_def)
  have m1: "emailRegex_test ''erin@example.com''" and m2: "emailRegex_test ''alice@example.com''"
    by (simp_all add: emailRegex_test_def emailChar_def isSpace_def)
  have h1: "''erin@example.com'' \<noteq> [] \<and> ''Passw0rd!'' \<noteq> [] \<and> emailRegex_test ''erin@example.com''
         \<and> findFirst (\<lambda>u. user_email u = ''erin@example.com'') (user exAccounts) = None
         \<and> passwordRegex_test ''Passw0rd!''
         \<and> findFirst (\<lambda>x. token_token x = tokenString (''aaaa-bbbb'', ''cccc-dddd''))
              (activateToken exAccounts) = None"
    using pw m1
    by (simp add: exAccounts_def emptyDb_def emptyTable_def alice_def carol_def exUser_def
          findFirst_def)
  have h2: "''alice@example.com'' \<noteq> [] \<and> emailRegex_test ''alice@example.com''
         \<and> findFirst (\<lambda>u. user_email u = ''alice@example.com'') (user exAccounts) = Some alice
         \<and> user_provider alice = DEFAULT
         \<and> findFirst (\<lambda>x. token_token x = tokenString (''aaaa-bbbb'', ''cccc-dddd''))
              (passwordResetToken exAccounts) = None"
    using m2
    by (simp add: exAccounts_def emptyDb_def emptyTable_def alice_def carol_def exUser_def
          findFirst_def)
  have h3: "findFirst (\<lambda>x. token_token x = tokenString (''aaaa-bbbb'', ''cccc-dddd''))
              (deleteToken exAccounts) = None"
    by (simp add: exAccounts_def emptyDb_def emptyTable_def findFirst_def)
  note a = mail_failure_fails_request [of exEnv exBounce "''erin@example.com''"
             "Some ''https://post.room''" "(''aaaa-bbbb'', ''cccc-dddd'')"
             "''550 mailbox unavailable''" exJwt exBcrypt exAccounts 5 "''Passw0rd!''" alice 1,
             THEN conjunct1, THEN mp, OF f1, THEN conjunct2, THEN conjunct2, THEN mp, OF h1]
  note b = mail_failure_fails_request [of exEnv exDown "''alice@example.com''"
             "Some ''https://post.room''" "(''aaaa-bbbb'', ''cccc-dddd'')"
             "''ECONNREFUSED''" exJwt exBcrypt exAccounts 5 "''Passw0rd!''" alice 1,
             THEN conjunct2, THEN conjunct1, THEN mp, OF f2, THEN conjunct2, THEN mp, OF h2]
  note c = mail_failure_fails_request [of exEnv exDown "''alice@example.com''"
             "Some ''https://post.room''" "(''aaaa-bbbb'', ''cccc-dddd'')"
             "''ECONNREFUSED''" exJwt exBcrypt exAccounts 5 "''Passw0rd!''" alice 1,
             THEN conjunct2, THEN conjunct2, THEN mp, OF f3, THEN conjunct2, THEN mp, OF h3]
  show ?thesis
    by (intro conjI up a b c)
qed

section \<open>Recent searches: at most five, none twice\<close>

lemma deleteSearches_ok:
  "deleteSearches ss t = (True, t') \<Longrightarrow>
     rows t' = filter (\<lambda>x. searches_id x \<notin> searches_id ` set ss) (rows t)
     \<and> nextId t' = nextId t"
proof (induction ss arbitrary: t)
  case Nil
  then show ?case by simp
next
  case (Cons s ss)
  from Cons.prems obtain r t'' where
    d: "delete (\<lambda>x. searches_id x = searches_id s) t = Some (r, t'')"
    and rest: "deleteSearches ss t'' = (True, t')"
    by (auto split: option.splits)
  from delete_rows [OF d] have
    r1: "rows t'' = filter (\<lambda>x. searches_id x \<noteq> searches_id s) (rows t)"
    and n1: "nextId t'' = nextId t"
    by simp_all
  from Cons.IH [OF rest] have
    r2: "rows t' = filter (\<lambda>x. searches_id x \<notin> searches_id ` set ss) (rows t'')"
    and n2: "nextId t' = nextId t''"
    by simp_all
  have "rows t' = filter (\<lambda>x. searches_id x \<notin> searches_id ` set (s # ss)) (rows t)"
    unfolding r2 r1 by (auto intro: filter_cong)
  with n1 n2 show ?case by simp
qed

text \<open>
  The searches table after a search answered with 200: the rows to drop are gone, the new
  row is appended, the first row of the requester with the text of the query is gone.
\<close>

lemma searchBlogs_ok_rows:
  assumes "status (fst (searchBlogs orderBy d now me query found)) = 200"
  defines "rs \<equiv> orderBy (filter (\<lambda>s. searches_userId s = me) (rows (searches d)))"
  defines "D \<equiv> (if 5 \<le> length rs then searches_id ` set (drop 4 rs) else {})"
  defines "new \<equiv> \<lparr>searches_id = nextId (searches d), searches_userId = me,
                    searches_content = query, searches_createdAt = now\<rparr>"
  defines "kept \<equiv> filter (\<lambda>x. searches_id x \<notin> D) (rows (searches d))"
  shows "rows (searches (snd (searchBlogs orderBy d now me query found)))
           = (case find (\<lambda>s. searches_content s = query \<and> searches_userId s = me) kept of
                None \<Rightarrow> kept @ [new]
              | Some dup \<Rightarrow> filter (\<lambda>x. searches_id x \<noteq> searches_id dup) (kept @ [new]))"
    and "nextId (searches (snd (searchBlogs orderBy d now me query found)))
           = nextId (searches d) + 1"
proof -
  have q: "query \<noteq> []"
    using assms(1) by (auto simp: searchBlogs_def reply_def)
  obtain ok t1 where
    t1: "(if length rs \<ge> 5 then deleteSearches (drop 4 rs) (searches d) else (True, searches d))
           = (ok, t1)"
    by (cases "if length rs \<ge> 5 then deleteSearches (drop 4 rs) (searches d)
               else (True, searches d)") simp
  let ?new = "\<lambda>i. \<lparr>searches_id = i, searches_userId = me, searches_content = query,
                      searches_createdAt = now\<rparr>"
  have unf: "searchBlogs orderBy d now me query found
          = (if \<not> ok then (reply 500 (Message prismaError), d\<lparr>searches := t1\<rparr>)
             else
               (case findFirst (\<lambda>s. searches_content s = query \<and> searches_userId s = me) t1 of
                  None \<Rightarrow> (reply 200 (Json found), d\<lparr>searches := snd (create ?new t1)\<rparr>)
                | Some dup \<Rightarrow>
                   (case delete (\<lambda>x. searches_id x = searches_id dup) (snd (create ?new t1)) of
                      None \<Rightarrow> (reply 500 (Message prismaError),
                                d\<lparr>searches := snd (create ?new t1)\<rparr>)
                    | Some (r, t3) \<Rightarrow> (reply 200 (Json found), d\<lparr>searches := t3\<rparr>))))"
    using q t1 unfolding searchBlogs_def rs_def findMany_def
    by (simp add: Let_def case_prod_beta)
  have ok: "ok"
  proof (rule ccontr)
    assume "\<not> ok"
    with unf have "searchBlogs orderBy d now me query found
                     = (reply 500 (Message prismaError), d\<lparr>searches := t1\<rparr>)"
      by simp
    with assms(1) show False by (simp add: reply_def)
  qed
  have r1: "rows t1 = kept" and n1: "nextId t1 = nextId (searches d)"
  proof -
    show "rows t1 = kept"
    proof (cases "5 \<le> length rs")
      case True
      with t1 ok have "deleteSearches (drop 4 rs) (searches d) = (True, t1)" by simp
      from deleteSearches_ok [OF this] True show ?thesis by (simp add: kept_def D_def)
    next
      case False
      with t1 show ?thesis by (simp add: kept_def D_def)
    qed
    show "nextId t1 = nextId (searches d)"
    proof (cases "5 \<le> length rs")
      case True
      with t1 ok have "deleteSearches (drop 4 rs) (searches d) = (True, t1)" by simp
      from deleteSearches_ok [OF this] show ?thesis by simp
    next
      case False
      with t1 show ?thesis by simp
    qed
  qed
  have c: "rows (snd (create ?new t1)) = kept @ [new]"
    and cn: "nextId (snd (create ?new t1)) = nextId (searches d) + 1"
    by (simp_all add: create_def r1 n1 new_def)
  have "rows (searches (snd (searchBlogs orderBy d now me query found)))
           = (case find (\<lambda>s. searches_content s = query \<and> searches_userId s = me) kept of
                None \<Rightarrow> kept @ [new]
              | Some dup \<Rightarrow> filter (\<lambda>x. searches_id x \<noteq> searches_id dup) (kept @ [new]))
        \<and> nextId (searches (snd (searchBlogs orderBy d now me query found)))
           = nextId (searches d) + 1"
  proof (cases "find (\<lambda>s. searches_content s = query \<and> searches_userId s = me) kept")
    case None
    then have "findFirst (\<lambda>s. searches_content s = query \<and> searches_userId s = me) t1 = None"
      by (simp add: findFirst_def r1)
    with unf ok have "searchBlogs orderBy d now me query found
                        = (reply 200 (Json found), d\<lparr>searches := snd (create ?new t1)\<rparr>)"
      by simp
    with None c cn show ?thesis by simp
  next
    case (Some dup)
    then have f: "findFirst (\<lambda>s. searches_content s = query \<and> searches_userId s = me) t1 = Some dup"
      by (simp add: findFirst_def r1)
    show ?thesis
    proof (cases "delete (\<lambda>x. searches_id x = searches_id dup) (snd (create ?new t1))")
      case None
      with unf ok f have "status (fst (searchBlogs orderBy d now me query found)) = 500"
        by (simp add: reply_def)
      with assms(1) show ?thesis by simp
    next
      case (Some a)
      then obtain r t3 where
        d3: "delete (\<lambda>x. searches_id x = searches_id dup) (snd (create ?new t1)) = Some (r, t3)"
        by (cases a) simp
      from delete_rows [OF d3] c cn
      have r3: "rows t3 = filter (\<lambda>x. searches_id x \<noteq> searches_id dup) (kept @ [new])"
        and n3: "nextId t3 = nextId (searches d) + 1"
        by simp_all
      from unf ok f d3 have "searchBlogs orderBy d now me query found
                               = (reply 200 (Json found), d\<lparr>searches := t3\<rparr>)"
        by simp
      with r3 n3 \<open>find (\<lambda>s. searches_content s = query \<and> searches_userId s = me) kept = Some dup\<close>
      show ?thesis by simp
    qed
  qed
  then show "rows (searches (snd (searchBlogs orderBy d now me query found)))
           = (case find (\<lambda>s. searches_content s = query \<and> searches_userId s = me) kept of
                None \<Rightarrow> kept @ [new]
              | Some dup \<Rightarrow> filter (\<lambda>x. searches_id x \<noteq> searches_id dup) (kept @ [new]))"
    and "nextId (searches (snd (searchBlogs orderBy d now me query found)))
           = nextId (searches d) + 1"
    by simp_all
qed

lemma perm_filter_length:
  assumes "mset rs = mset M"
  shows "length (filter P rs) = length (filter P M)"
proof -
  from assms have "filter_mset P (mset rs) = filter_mset P (mset M)" by simp
  then have "mset (filter P rs) = mset (filter P M)" by simp
  then show ?thesis by (rule mset_eq_length)
qed

lemma kept_mine_le4:
  fixes M rs :: "Searches list"
  assumes "mset rs = mset M"
  defines "D \<equiv> (if 5 \<le> length rs then searches_id ` set (drop 4 rs) else {})"
  shows "length (filter (\<lambda>x. searches_id x \<notin> D) M) \<le> 4"
proof (cases "5 \<le> length rs")
  case False
  from assms(1) have "length rs = length M" by (rule mset_eq_length)
  with False have "D = {}" and "length M \<le> 4" by (simp_all add: D_def)
  then show ?thesis by simp
next
  case True
  then have D: "D = searches_id ` set (drop 4 rs)" by (simp add: D_def)
  let ?P = "\<lambda>x. searches_id x \<notin> D"
  have "length (filter ?P M) = length (filter ?P rs)"
    by (rule perm_filter_length [OF assms(1), symmetric])
  also have "filter ?P rs = filter ?P (take 4 rs) @ filter ?P (drop 4 rs)"
    using filter_append [of ?P "take 4 rs" "drop 4 rs"] by simp
  also have "filter ?P (drop 4 rs) = []"
    by (auto simp: D filter_empty_conv)
  finally have "length (filter ?P M) = length (filter ?P (take 4 rs))" by simp
  also have "\<dots> \<le> length (take 4 rs)" by (rule length_filter_le)
  also have "\<dots> \<le> 4" by simp
  finally show ?thesis .
qed

lemma recent_first:
  fixes rs :: "Searches list"
  assumes "sorted_wrt (\<lambda>a b. searches_createdAt b \<le> searches_createdAt a) rs"
    and "a \<in> set (take n rs)" and "b \<in> set (drop n rs)"
  shows "searches_createdAt b \<le> searches_createdAt a"
proof -
  have "sorted_wrt (\<lambda>a b. searches_createdAt b \<le> searches_createdAt a) (take n rs @ drop n rs)"
    using assms(1) by simp
  then have "\<forall>x \<in> set (take n rs). \<forall>y \<in> set (drop n rs).
               searches_createdAt y \<le> searches_createdAt x"
    unfolding sorted_wrt_append by simp
  with assms(2,3) show ?thesis by simp
qed

text \<open>
  With ids that identify the rows, to keep the rows whose id is not among the ids from the
  fifth place on is to keep the first four rows of the order.
\<close>

lemma kept_ids_eq:
  fixes M rs :: "Searches list"
  assumes "mset rs = mset M" and "distinct (map searches_id M)"
  shows "filter (\<lambda>x. searches_id x \<notin> searches_id ` set (drop n rs)) M
           = filter (\<lambda>x. x \<in> set (take n rs)) M"
proof (rule filter_cong [OF refl])
  fix x
  assume x: "x \<in> set M"
  from assms(1) have s: "set rs = set M" by (rule mset_eq_setD)
  from assms(2) have inj: "inj_on searches_id (set M)" and dM: "distinct M"
    by (simp_all add: distinct_map)
  from dM assms(1) have "distinct rs"
    using mset_eq_imp_distinct_iff [of rs M] by simp
  then have "distinct (take n rs @ drop n rs)" by simp
  then have disj: "set (take n rs) \<inter> set (drop n rs) = {}"
    unfolding distinct_append by simp
  have un: "set (take n rs) \<union> set (drop n rs) = set M"
    using s set_append [of "take n rs" "drop n rs"] by simp
  have "searches_id x \<in> searches_id ` set (drop n rs) \<longleftrightarrow> x \<in> set (drop n rs)"
  proof
    assume "searches_id x \<in> searches_id ` set (drop n rs)"
    then obtain y where y: "y \<in> set (drop n rs)" "searches_id x = searches_id y" by auto
    from y(1) un have "y \<in> set M" by auto
    with inj x y(2) have "x = y" by (auto dest: inj_onD)
    with y(1) show "x \<in> set (drop n rs)" by simp
  qed simp
  with x un disj show "(searches_id x \<notin> searches_id ` set (drop n rs)) = (x \<in> set (take n rs))"
    by auto
qed

lemma kept_length:
  fixes M rs :: "Searches list"
  assumes "mset rs = mset M" and "distinct M" and "n \<le> length M"
  shows "length (filter (\<lambda>x. x \<in> set (take n rs)) M) = n"
proof -
  from assms(1,2) have d: "distinct rs"
    using mset_eq_imp_distinct_iff [of rs M] by simp
  then have "distinct (take n rs @ drop n rs)" by simp
  then have disj: "set (take n rs) \<inter> set (drop n rs) = {}"
    unfolding distinct_append by simp
  let ?P = "\<lambda>x. x \<in> set (take n rs)"
  have "length (filter ?P M) = length (filter ?P rs)"
    by (rule perm_filter_length [OF assms(1), symmetric])
  also have "filter ?P rs = filter ?P (take n rs) @ filter ?P (drop n rs)"
    using filter_append [of ?P "take n rs" "drop n rs"] by simp
  also have "filter ?P (drop n rs) = []"
    using disj by (auto simp: filter_empty_conv)
  also have "filter ?P (take n rs) = take n rs"
    by simp
  finally have "length (filter ?P M) = length (take n rs)" by simp
  moreover from assms(1) have "length rs = length M" by (rule mset_eq_length)
  ultimately show ?thesis using assms(3) by simp
qed

text \<open>Deleting rows of one user by id leaves the rows of the others, when ids identify rows.\<close>

lemma others_kept:
  fixes xs :: "Searches list"
  assumes "distinct (map searches_id xs)"
    and "D \<subseteq> searches_id ` set (filter (\<lambda>s. searches_userId s = me) xs)"
  shows "filter (\<lambda>s. searches_userId s \<noteq> me) (filter (\<lambda>x. searches_id x \<notin> D) xs)
           = filter (\<lambda>s. searches_userId s \<noteq> me) xs"
proof -
  from assms(1) have inj: "inj_on searches_id (set xs)" by (simp add: distinct_map)
  have "filter (\<lambda>x. searches_id x \<notin> D \<and> searches_userId x \<noteq> me) xs
          = filter (\<lambda>s. searches_userId s \<noteq> me) xs"
  proof (rule filter_cong [OF refl])
    fix x
    assume x: "x \<in> set xs"
    show "(searches_id x \<notin> D \<and> searches_userId x \<noteq> me) = (searches_userId x \<noteq> me)"
    proof (cases "searches_userId x = me")
      case True
      then show ?thesis by simp
    next
      case False
      have "searches_id x \<notin> D"
      proof
        assume "searches_id x \<in> D"
        with assms(2) obtain y where y: "y \<in> set xs" "searches_userId y = me"
          "searches_id x = searches_id y" by auto
        with inj x have "x = y" by (auto dest: inj_onD)
        with y(2) False show False by simp
      qed
      with False show ?thesis by simp
    qed
  qed
  then show ?thesis by (simp add: conj_commute)
qed

lemma record_distinct:
  assumes "distinct (map searches_content K)" and "searches_content new = query"
  shows "distinct (map searches_content
           (case find (\<lambda>s. searches_content s = query) K of
              None \<Rightarrow> K @ [new]
            | Some dup \<Rightarrow> filter (\<lambda>x. searches_id x \<noteq> searches_id dup) (K @ [new])))"
proof (cases "find (\<lambda>s. searches_content s = query) K")
  case None
  then have "\<forall>x \<in> set K. searches_content x \<noteq> query"
    by (simp add: find_None_iff)
  with assms None show ?thesis by auto
next
  case (Some dup)
  then have dup: "dup \<in> set K" "searches_content dup = query"
    using find_SomeD [of "\<lambda>s. searches_content s = query" K dup] by simp_all
  let ?P = "\<lambda>x. searches_id x \<noteq> searches_id dup"
  have inj: "inj_on searches_content (set K)"
    using assms(1) by (simp add: distinct_map)
  have no: "\<forall>x \<in> set (filter ?P K). searches_content x \<noteq> query"
  proof
    fix x
    assume x: "x \<in> set (filter ?P K)"
    show "searches_content x \<noteq> query"
    proof
      assume "searches_content x = query"
      with dup x inj have "x = dup" by (auto dest: inj_onD)
      with x show False by simp
    qed
  qed
  have d: "distinct (map searches_content (filter ?P K))"
    using assms(1) by (rule distinct_map_filter)
  have "distinct (map searches_content (filter ?P (K @ [new])))"
    using d no assms(2) by auto
  with Some show ?thesis by simp
qed

lemma record_length:
  "length (case find (\<lambda>s. searches_content s = query) K of
             None \<Rightarrow> K @ [new]
           | Some dup \<Rightarrow> filter (\<lambda>x. searches_id x \<noteq> searches_id dup) (K @ [new]))
     \<le> length K + 1"
proof (cases "find (\<lambda>s. searches_content s = query) K")
  case None
  then show ?thesis by simp
next
  case (Some dup)
  have "length (filter (\<lambda>x. searches_id x \<noteq> searches_id dup) (K @ [new])) \<le> length (K @ [new])"
    by (rule length_filter_le)
  with Some show ?thesis by simp
qed

text \<open>
  With ids that identify the rows and a fresh id for the new row, the row removed as the
  duplicate is the one found, and nothing else.
\<close>

lemma record_exact:
  fixes K :: "Searches list"
  assumes "distinct (map searches_id K)" and "\<forall>x \<in> set K. searches_id x \<noteq> searches_id new"
  shows "(case find P K of
            None \<Rightarrow> K @ [new]
          | Some dup \<Rightarrow> filter (\<lambda>x. searches_id x \<noteq> searches_id dup) (K @ [new]))
         = (case find P K of
              None \<Rightarrow> K @ [new]
            | Some dup \<Rightarrow> filter (\<lambda>x. x \<noteq> dup) K @ [new])"
proof (cases "find P K")
  case None
  then show ?thesis by simp
next
  case (Some dup)
  then have dup: "dup \<in> set K"
    using find_SomeD [of P K dup] by simp
  from assms(1) have inj: "inj_on searches_id (set K)" by (simp add: distinct_map)
  have "filter (\<lambda>x. searches_id x \<noteq> searches_id dup) K = filter (\<lambda>x. x \<noteq> dup) K"
  proof (rule filter_cong [OF refl])
    fix x
    assume "x \<in> set K"
    with inj dup show "(searches_id x \<noteq> searches_id dup) = (x \<noteq> dup)"
      by (auto dest: inj_onD)
  qed
  moreover from assms(2) dup have "searches_id new \<noteq> searches_id dup" by auto
  ultimately show ?thesis using Some by simp
qed

lemma record_exact_distinct:
  fixes K :: "Searches list"
  assumes "distinct (map searches_content K)"
  shows "(case find (\<lambda>s. searches_content s = query) K of
            None \<Rightarrow> K @ [new]
          | Some dup \<Rightarrow> filter (\<lambda>x. x \<noteq> dup) K @ [new])
         = filter (\<lambda>s. searches_content s \<noteq> query) K @ [new]"
proof (cases "find (\<lambda>s. searches_content s = query) K")
  case None
  then have "\<forall>x \<in> set K. searches_content x \<noteq> query"
    by (simp add: find_None_iff)
  then have "filter (\<lambda>s. searches_content s \<noteq> query) K = K" by simp
  with None show ?thesis by simp
next
  case (Some dup)
  then have dup: "dup \<in> set K" "searches_content dup = query"
    using find_SomeD [of "\<lambda>s. searches_content s = query" K dup] by simp_all
  from assms have inj: "inj_on searches_content (set K)" by (simp add: distinct_map)
  have "filter (\<lambda>x. x \<noteq> dup) K = filter (\<lambda>s. searches_content s \<noteq> query) K"
  proof (rule filter_cong [OF refl])
    fix x
    assume "x \<in> set K"
    with inj dup show "(x \<noteq> dup) = (searches_content x \<noteq> query)"
      by (auto dest: inj_onD)
  qed
  with Some show ?thesis by simp
qed

lemma searchBlogs_mine:
  assumes "status (fst (searchBlogs orderBy d now me query found)) = 200"
  defines "M \<equiv> filter (\<lambda>s. searches_userId s = me) (rows (searches d))"
  defines "rs \<equiv> orderBy M"
  defines "D \<equiv> (if 5 \<le> length rs then searches_id ` set (drop 4 rs) else {})"
  defines "new \<equiv> \<lparr>searches_id = nextId (searches d), searches_userId = me,
                    searches_content = query, searches_createdAt = now\<rparr>"
  defines "K \<equiv> filter (\<lambda>x. searches_id x \<notin> D) M"
  shows "filter (\<lambda>s. searches_userId s = me)
           (rows (searches (snd (searchBlogs orderBy d now me query found))))
           = (case find (\<lambda>s. searches_content s = query) K of
                None \<Rightarrow> K @ [new]
              | Some dup \<Rightarrow> filter (\<lambda>x. searches_id x \<noteq> searches_id dup) (K @ [new]))"
proof -
  let ?me = "\<lambda>s. searches_userId s = me"
  let ?kept = "filter (\<lambda>x. searches_id x \<notin> D) (rows (searches d))"
  have k: "filter ?me ?kept = K"
    unfolding K_def M_def filter_filter by (rule filter_cong) auto
  have n: "filter ?me (?kept @ [new]) = K @ [new]"
    unfolding filter_append k by (simp add: new_def)
  have f: "find (\<lambda>s. searches_content s = query \<and> searches_userId s = me) ?kept
             = find (\<lambda>s. searches_content s = query) K"
    unfolding k [symmetric] by (rule find_filter_conj)
  have r: "rows (searches (snd (searchBlogs orderBy d now me query found)))
           = (case find (\<lambda>s. searches_content s = query) K of
                None \<Rightarrow> ?kept @ [new]
              | Some dup \<Rightarrow> filter (\<lambda>x. searches_id x \<noteq> searches_id dup) (?kept @ [new]))"
    using searchBlogs_ok_rows(1) [OF assms(1)]
    unfolding D_def rs_def M_def new_def f [unfolded D_def rs_def M_def K_def] K_def
    by simp
  show ?thesis
  proof (cases "find (\<lambda>s. searches_content s = query) K")
    case None
    with r n show ?thesis by simp
  next
    case (Some dup)
    have "filter ?me (filter (\<lambda>x. searches_id x \<noteq> searches_id dup) (?kept @ [new]))
            = filter (\<lambda>x. searches_id x \<noteq> searches_id dup) (filter ?me (?kept @ [new]))"
      unfolding filter_filter by (rule filter_cong) auto
    with Some r n show ?thesis by simp
  qed
qed

lemma searchBlogs_others:
  assumes "status (fst (searchBlogs orderBy d now me query found)) = 200"
    and "mset (orderBy (filter (\<lambda>s. searches_userId s = me) (rows (searches d))))
           = mset (filter (\<lambda>s. searches_userId s = me) (rows (searches d)))"
    and "distinct (map searches_id (rows (searches d)))"
  shows "filter (\<lambda>s. searches_userId s \<noteq> me)
           (rows (searches (snd (searchBlogs orderBy d now me query found))))
           = filter (\<lambda>s. searches_userId s \<noteq> me) (rows (searches d))"
proof -
  let ?me = "\<lambda>s. searches_userId s = me"
  let ?other = "\<lambda>s. searches_userId s \<noteq> me"
  define M where "M = filter ?me (rows (searches d))"
  define rs where "rs = orderBy M"
  define D where "D = (if 5 \<le> length rs then searches_id ` set (drop 4 rs) else {})"
  define new where "new = \<lparr>searches_id = nextId (searches d), searches_userId = me,
                            searches_content = query, searches_createdAt = now\<rparr>"
  define kept where "kept = filter (\<lambda>x. searches_id x \<notin> D) (rows (searches d))"
  define R where "R = rows (searches (snd (searchBlogs orderBy d now me query found)))"
  have r: "R = (case find (\<lambda>s. searches_content s = query \<and> searches_userId s = me) kept of
                  None \<Rightarrow> kept @ [new]
                | Some dup \<Rightarrow> filter (\<lambda>x. searches_id x \<noteq> searches_id dup) (kept @ [new]))"
    unfolding R_def kept_def D_def rs_def M_def new_def
    by (rule searchBlogs_ok_rows(1) [OF assms(1)])
  from assms(2) have "set rs = set M"
    unfolding rs_def M_def by (rule mset_eq_setD)
  moreover have "set (drop 4 rs) \<subseteq> set rs" by (rule set_drop_subset)
  ultimately have "D \<subseteq> searches_id ` set M"
    by (auto simp: D_def)
  then have k: "filter ?other kept = filter ?other (rows (searches d))"
    unfolding kept_def M_def by (rule others_kept [OF assms(3)])
  have dk: "distinct (map searches_id kept)"
    unfolding kept_def using assms(3) by (rule distinct_map_filter)
  have n: "filter ?other [new] = []" by (simp add: new_def)
  show ?thesis
  proof (cases "find (\<lambda>s. searches_content s = query \<and> searches_userId s = me) kept")
    case None
    with r have "R = kept @ [new]" by simp
    then have "filter ?other R = filter ?other kept @ filter ?other [new]" by simp
    with k n show ?thesis unfolding R_def by simp
  next
    case (Some dup)
    then have dup: "dup \<in> set kept" "searches_userId dup = me"
      using find_SomeD [of "\<lambda>s. searches_content s = query \<and> searches_userId s = me" kept dup]
      by simp_all
    then have sub: "{searches_id dup} \<subseteq> searches_id ` set (filter ?me kept)" by auto
    from Some r have "R = filter (\<lambda>x. searches_id x \<notin> {searches_id dup}) kept
                          @ filter (\<lambda>x. searches_id x \<noteq> searches_id dup) [new]"
      by simp
    then have "filter ?other R
                 = filter ?other (filter (\<lambda>x. searches_id x \<notin> {searches_id dup}) kept)
                   @ filter ?other (filter (\<lambda>x. searches_id x \<noteq> searches_id dup) [new])"
      by simp
    also have "filter ?other (filter (\<lambda>x. searches_id x \<noteq> searches_id dup) [new]) = []"
      by (simp add: new_def)
    also have "filter ?other (filter (\<lambda>x. searches_id x \<notin> {searches_id dup}) kept)
                 = filter ?other kept"
      using dk sub by (rule others_kept)
    finally show ?thesis unfolding R_def using k by simp
  qed
qed

lemma record_old:
  assumes "a \<in> set (case find P K of
                       None \<Rightarrow> K @ [new]
                     | Some dup \<Rightarrow> filter (\<lambda>x. x \<noteq> dup) K @ [new])"
  shows "a = new \<or> a \<in> set K"
  using assms by (cases "find P K") auto

lemma record_gone:
  assumes "b \<in> set K" and "\<not> P b"
  shows "b \<in> set (case find P K of
                    None \<Rightarrow> K @ [new]
                  | Some dup \<Rightarrow> filter (\<lambda>x. x \<noteq> dup) K @ [new])"
proof (cases "find P K")
  case None
  with assms show ?thesis by simp
next
  case (Some dup)
  then have "P dup" using find_SomeD [of P K dup] by simp
  with assms(2) have "b \<noteq> dup" by auto
  with Some assms(1) show ?thesis by simp
qed

text \<open>
  Claim C10. \<open>M\<close> are the recent searches of the requester before the request, \<open>R\<close> the
  searches table after it. The store hands out \<open>M\<close> by falling creation time
  (\<open>createdAtDesc\<close>). After a search that completed (status 200):

    \<^item> the requester has at most five rows;
    \<^item> they are exactly the rows of \<open>M\<close> whose id is not an id from the fifth place of the
      order on (all of \<open>M\<close> when \<open>M\<close> has fewer than five rows), followed by the row of the
      new search, without the first of them that has the text of the query;
    \<^item> when the texts of the requester's rows were distinct before, they are distinct
      afterwards;
    \<^item> the counter of the table has advanced by one.

  In a store whose ids identify the rows and lie below the counter of the table, moreover:

    \<^item> the rows of the other users are unchanged;
    \<^item> the old rows kept (\<open>K\<close>) are the first four of the order, so four rows, when \<open>M\<close> had
      five or more, and the requester's rows are \<open>K\<close> without the first row with the text of
      the query, followed by the row of the new search;
    \<^item> an old row of the requester that has gone and does not have the text of the query
      was created no later than any old row that is still there;
    \<^item> when the texts of the requester's rows were distinct before, the requester's rows
      are the rows of \<open>K\<close> with another text than the query, followed by the row of the new
      search.
\<close>

theorem searchBlogs_recent:
  fixes d :: db and orderBy :: "Searches list \<Rightarrow> Searches list"
    and now :: time and me :: int and query :: string and found :: 'b
  defines "M \<equiv> filter (\<lambda>s. searches_userId s = me) (rows (searches d))"
  defines "R \<equiv> rows (searches (snd (searchBlogs orderBy d now me query found)))"
  defines "new \<equiv> \<lparr>searches_id = nextId (searches d), searches_userId = me,
                    searches_content = query, searches_createdAt = now\<rparr>"
  defines "kept \<equiv> filter (\<lambda>x. searches_id x \<notin> (if 5 \<le> length M
                                                  then searches_id ` set (drop 4 (orderBy M))
                                                  else {})) M"
  defines "K \<equiv> (if 5 \<le> length M then filter (\<lambda>x. x \<in> set (take 4 (orderBy M))) M else M)"
  shows
  "status (fst (searchBlogs orderBy d now me query found)) = 200 \<and> createdAtDesc orderBy M \<longrightarrow>
     length (filter (\<lambda>s. searches_userId s = me) R) \<le> 5
     \<and> filter (\<lambda>s. searches_userId s = me) R
         = (case find (\<lambda>s. searches_content s = query) kept of
              None \<Rightarrow> kept @ [new]
            | Some dup \<Rightarrow> filter (\<lambda>x. searches_id x \<noteq> searches_id dup) (kept @ [new]))
     \<and> (distinct (map searches_content M) \<longrightarrow>
          distinct (map searches_content (filter (\<lambda>s. searches_userId s = me) R)))
     \<and> nextId (searches (snd (searchBlogs orderBy d now me query found)))
         = nextId (searches d) + 1
     \<and> (distinct (map searches_id (rows (searches d)))
        \<and> (\<forall>s \<in> set (rows (searches d)). searches_id s < nextId (searches d)) \<longrightarrow>
          filter (\<lambda>s. searches_userId s \<noteq> me) R
            = filter (\<lambda>s. searches_userId s \<noteq> me) (rows (searches d))
          \<and> filter (\<lambda>s. searches_userId s = me) R
              = (case find (\<lambda>s. searches_content s = query) K of
                   None \<Rightarrow> K @ [new]
                 | Some dup \<Rightarrow> filter (\<lambda>x. x \<noteq> dup) K @ [new])
          \<and> (5 \<le> length M \<longrightarrow> length K = 4)
          \<and> (\<forall>a \<in> set M. \<forall>b \<in> set M.
                a \<in> set R \<and> b \<notin> set R \<and> searches_content b \<noteq> query
                \<longrightarrow> searches_createdAt b \<le> searches_createdAt a)
          \<and> (distinct (map searches_content M) \<longrightarrow>
                filter (\<lambda>s. searches_userId s = me) R
                  = filter (\<lambda>s. searches_content s \<noteq> query) K @ [new]))"
proof (intro impI)
  assume h: "status (fst (searchBlogs orderBy d now me query found)) = 200
             \<and> createdAtDesc orderBy M"
  then have ok: "status (fst (searchBlogs orderBy d now me query found)) = 200"
    and ms: "mset (orderBy M) = mset M"
    and srt: "sorted_wrt (\<lambda>a b. searches_createdAt b \<le> searches_createdAt a) (orderBy M)"
    by (simp_all add: createdAtDesc_def)
  let ?me = "\<lambda>s. searches_userId s = me"
  from ms have len: "length (orderBy M) = length M" by (rule mset_eq_length)
  from ms have st: "set (orderBy M) = set M" by (rule mset_eq_setD)
  have mine: "filter ?me R = (case find (\<lambda>s. searches_content s = query) kept of
                None \<Rightarrow> kept @ [new]
              | Some dup \<Rightarrow> filter (\<lambda>x. searches_id x \<noteq> searches_id dup) (kept @ [new]))"
    using searchBlogs_mine [OF ok]
    unfolding R_def kept_def new_def M_def [symmetric] len by simp
  have k4: "length kept \<le> 4"
    using kept_mine_le4 [OF ms] unfolding kept_def len .
  have c1: "length (filter ?me R) \<le> 5"
    using record_length [where K = kept and new = new and query = query] k4
    unfolding mine by simp
  have kM: "\<exists>P. kept = filter P M" unfolding kept_def by (rule exI) (rule refl)
  have c3: "distinct (map searches_content M) \<longrightarrow> distinct (map searches_content (filter ?me R))"
  proof
    assume "distinct (map searches_content M)"
    then have "distinct (map searches_content kept)"
      unfolding kept_def by (rule distinct_map_filter)
    then show "distinct (map searches_content (filter ?me R))"
      unfolding mine by (rule record_distinct) (simp add: new_def)
  qed
  have c4: "nextId (searches (snd (searchBlogs orderBy d now me query found)))
              = nextId (searches d) + 1"
    by (rule searchBlogs_ok_rows(2) [OF ok])
  have c5: "distinct (map searches_id (rows (searches d)))
        \<and> (\<forall>s \<in> set (rows (searches d)). searches_id s < nextId (searches d)) \<longrightarrow>
          filter (\<lambda>s. searches_userId s \<noteq> me) R
            = filter (\<lambda>s. searches_userId s \<noteq> me) (rows (searches d))
          \<and> filter (\<lambda>s. searches_userId s = me) R
              = (case find (\<lambda>s. searches_content s = query) K of
                   None \<Rightarrow> K @ [new]
                 | Some dup \<Rightarrow> filter (\<lambda>x. x \<noteq> dup) K @ [new])
          \<and> (5 \<le> length M \<longrightarrow> length K = 4)
          \<and> (\<forall>a \<in> set M. \<forall>b \<in> set M.
                a \<in> set R \<and> b \<notin> set R \<and> searches_content b \<noteq> query
                \<longrightarrow> searches_createdAt b \<le> searches_createdAt a)
          \<and> (distinct (map searches_content M) \<longrightarrow>
                filter (\<lambda>s. searches_userId s = me) R
                  = filter (\<lambda>s. searches_content s \<noteq> query) K @ [new])"
  proof (intro impI)
    assume inv: "distinct (map searches_id (rows (searches d)))
        \<and> (\<forall>s \<in> set (rows (searches d)). searches_id s < nextId (searches d))"
    then have ids: "distinct (map searches_id (rows (searches d)))"
      and low: "\<forall>s \<in> set (rows (searches d)). searches_id s < nextId (searches d)"
      by simp_all
    have dM: "distinct (map searches_id M)"
      unfolding M_def using ids by (rule distinct_map_filter)
    then have dM': "distinct M" by (simp add: distinct_map)
    have kK: "kept = K"
    proof (cases "5 \<le> length M")
      case True
      with kept_ids_eq [OF ms dM, of 4] show ?thesis by (simp add: kept_def K_def)
    next
      case False
      then show ?thesis by (simp add: kept_def K_def)
    qed
    have sub: "set K \<subseteq> set M" unfolding kK [symmetric] kept_def by auto
    have fresh: "\<forall>x \<in> set K. searches_id x \<noteq> searches_id new"
    proof
      fix x
      assume "x \<in> set K"
      with sub have "x \<in> set (rows (searches d))" by (auto simp: M_def)
      with low have "searches_id x < nextId (searches d)" by simp
      then show "searches_id x \<noteq> searches_id new" by (simp add: new_def)
    qed
    have dK: "distinct (map searches_id K)"
      unfolding kK [symmetric] kept_def using dM by (rule distinct_map_filter)
    have d1: "filter (\<lambda>s. searches_userId s \<noteq> me) R
            = filter (\<lambda>s. searches_userId s \<noteq> me) (rows (searches d))"
      unfolding R_def using ok ms [unfolded M_def] ids by (rule searchBlogs_others)
    have d2: "filter ?me R = (case find (\<lambda>s. searches_content s = query) K of
                   None \<Rightarrow> K @ [new]
                 | Some dup \<Rightarrow> filter (\<lambda>x. x \<noteq> dup) K @ [new])"
      unfolding mine kK using dK fresh by (rule record_exact)
    have d3: "5 \<le> length M \<longrightarrow> length K = 4"
    proof
      assume five: "5 \<le> length M"
      then have "4 \<le> length M" by simp
      from kept_length [OF ms dM' this] five show "length K = 4" by (simp add: K_def)
    qed
    have d4: "\<forall>a \<in> set M. \<forall>b \<in> set M.
                a \<in> set R \<and> b \<notin> set R \<and> searches_content b \<noteq> query
                \<longrightarrow> searches_createdAt b \<le> searches_createdAt a"
    proof (intro ballI impI)
      fix a b
      assume a: "a \<in> set M" and b: "b \<in> set M"
        and ab: "a \<in> set R \<and> b \<notin> set R \<and> searches_content b \<noteq> query"
      from a ab have "a \<in> set (filter ?me R)" by (simp add: M_def)
      then have "a = new \<or> a \<in> set K"
        unfolding d2 by (rule record_old)
      moreover from a low have "searches_id a < nextId (searches d)" by (simp add: M_def)
      then have "a \<noteq> new" by (auto simp: new_def)
      ultimately have aK: "a \<in> set K" by simp
      have bK: "b \<notin> set K"
      proof
        assume "b \<in> set K"
        moreover from ab have "\<not> searches_content b = query" by simp
        ultimately have "b \<in> set (case find (\<lambda>s. searches_content s = query) K of
                                    None \<Rightarrow> K @ [new]
                                  | Some dup \<Rightarrow> filter (\<lambda>x. x \<noteq> dup) K @ [new])"
          by (rule record_gone)
        then have "b \<in> set (filter ?me R)" unfolding d2 .
        with ab show False by simp
      qed
      have five: "5 \<le> length M"
      proof (rule ccontr)
        assume "\<not> 5 \<le> length M"
        then have "K = M" by (simp add: K_def)
        with b bK show False by simp
      qed
      with aK have a4: "a \<in> set (take 4 (orderBy M))" by (simp add: K_def)
      from five b bK have "b \<notin> set (take 4 (orderBy M))" by (simp add: K_def)
      moreover from b st have "b \<in> set (take 4 (orderBy M) @ drop 4 (orderBy M))" by simp
      ultimately have "b \<in> set (drop 4 (orderBy M))"
        unfolding set_append by simp
      with srt a4 show "searches_createdAt b \<le> searches_createdAt a"
        by (rule recent_first)
    qed
    have d5: "distinct (map searches_content M) \<longrightarrow>
                filter ?me R = filter (\<lambda>s. searches_content s \<noteq> query) K @ [new]"
    proof
      assume "distinct (map searches_content M)"
      then have "distinct (map searches_content K)"
        unfolding kK [symmetric] kept_def by (rule distinct_map_filter)
      then show "filter ?me R = filter (\<lambda>s. searches_content s \<noteq> query) K @ [new]"
        unfolding d2 by (rule record_exact_distinct)
    qed
    show "filter (\<lambda>s. searches_userId s \<noteq> me) R
            = filter (\<lambda>s. searches_userId s \<noteq> me) (rows (searches d))
          \<and> filter (\<lambda>s. searches_userId s = me) R
              = (case find (\<lambda>s. searches_content s = query) K of
                   None \<Rightarrow> K @ [new]
                 | Some dup \<Rightarrow> filter (\<lambda>x. x \<noteq> dup) K @ [new])
          \<and> (5 \<le> length M \<longrightarrow> length K = 4)
          \<and> (\<forall>a \<in> set M. \<forall>b \<in> set M.
                a \<in> set R \<and> b \<notin> set R \<and> searches_content b \<noteq> query
                \<longrightarrow> searches_createdAt b \<le> searches_createdAt a)
          \<and> (distinct (map searches_content M) \<longrightarrow>
                filter (\<lambda>s. searches_userId s = me) R
                  = filter (\<lambda>s. searches_content s \<noteq> query) K @ [new])"
      by (intro conjI d1 d2 d3 d4 d5)
  qed
  show "length (filter (\<lambda>s. searches_userId s = me) R) \<le> 5
     \<and> filter (\<lambda>s. searches_userId s = me) R
         = (case find (\<lambda>s. searches_content s = query) kept of
              None \<Rightarrow> kept @ [new]
            | Some dup \<Rightarrow> filter (\<lambda>x. searches_id x \<noteq> searches_id dup) (kept @ [new]))
     \<and> (distinct (map searches_content M) \<longrightarrow>
          distinct (map searches_content (filter (\<lambda>s. searches_userId s = me) R)))
     \<and> nextId (searches (snd (searchBlogs orderBy d now me query found)))
         = nextId (searches d) + 1
     \<and> (distinct (map searches_id (rows (searches d)))
        \<and> (\<forall>s \<in> set (rows (searches d)). searches_id s < nextId (searches d)) \<longrightarrow>
          filter (\<lambda>s. searches_userId s \<noteq> me) R
            = filter (\<lambda>s. searches_userId s \<noteq> me) (rows (searches d))
          \<and> filter (\<lambda>s. searches_userId s = me) R
              = (case find (\<lambda>s. searches_content s = query) K of
                   None \<Rightarrow> K @ [new]
                 | Some dup \<Rightarrow> filter (\<lambda>x. x \<noteq> dup) K @ [new])
          \<and> (5 \<le> length M \<longrightarrow> length K = 4)
          \<and> (\<forall>a \<in> set M. \<forall>b \<in> set M.
                a \<in> set R \<and> b \<notin> set R \<and> searches_content b \<noteq> query
                \<longrightarrow> searches_createdAt b \<le> searches_createdAt a)
          \<and> (distinct (map searches_content M) \<longrightarrow>
                filter (\<lambda>s. searches_userId s = me) R
                  = filter (\<lambda>s. searches_content s \<noteq> query) K @ [new]))"
    by (intro conjI c1 mine c3 c4 c5)
qed

theorem searchBlogs_recent_witness:
  "status (fst (searchBlogs exOrder exSearches 100 1 ''q5'' ())) = 200
   \<and> createdAtDesc exOrder (filter (\<lambda>s. searches_userId s = 1) (rows (searches exSearches)))
   \<and> distinct (map searches_id (rows (searches exSearches)))
   \<and> list_all (\<lambda>s. searches_id s < nextId (searches exSearches)) (rows (searches exSearches))
   \<and> distinct (map searches_content
                  (filter (\<lambda>s. searches_userId s = 1) (rows (searches exSearches))))
   \<and> length (filter (\<lambda>s. searches_userId s = 1)
               (rows (searches (snd (searchBlogs exOrder exSearches 100 1 ''q5'' ()))))) \<le> 5
   \<and> filter (\<lambda>s. searches_userId s = 1)
        (rows (searches (snd (searchBlogs exOrder exSearches 100 1 ''q5'' ()))))
       = [exSearch 3 1 ''q3'' 30, exSearch 5 1 ''q4'' 40, exSearch 7 1 ''q6'' 60,
          exSearch 8 1 ''q5'' 100]
   \<and> filter (\<lambda>s. searches_userId s \<noteq> 1)
        (rows (searches (snd (searchBlogs exOrder exSearches 100 1 ''q5'' ()))))
       = [exSearch 4 2 ''q5'' 35]
   \<and> nextId (searches (snd (searchBlogs exOrder exSearches 100 1 ''q5'' ()))) = 9
   \<and> distinct (map searches_content
                  (filter (\<lambda>s. searches_userId s = 1)
                     (rows (searches (snd (searchBlogs exOrder exSearches 100 1 ''q5'' ()))))))"
proof -
  have M: "filter (\<lambda>s. searches_userId s = 1) (rows (searches exSearches))
             = [exSearch 1 1 ''q1'' 10, exSearch 2 1 ''q2'' 20, exSearch 3 1 ''q3'' 30,
                exSearch 5 1 ''q4'' 40, exSearch 6 1 ''q5'' 50, exSearch 7 1 ''q6'' 60]"
    by (simp add: exSearches_def exSearch_def exPeople_def emptyDb_def emptyTable_def)
  have ord: "exOrder [exSearch 1 1 ''q1'' 10, exSearch 2 1 ''q2'' 20, exSearch 3 1 ''q3'' 30,
                      exSearch 5 1 ''q4'' 40, exSearch 6 1 ''q5'' 50, exSearch 7 1 ''q6'' 60]
               = [exSearch 7 1 ''q6'' 60, exSearch 6 1 ''q5'' 50, exSearch 5 1 ''q4'' 40,
                  exSearch 3 1 ''q3'' 30, exSearch 2 1 ''q2'' 20, exSearch 1 1 ''q1'' 10]"
    by (simp add: exOrder_def exSearch_def)
  have others: "filter (\<lambda>s. searches_userId s \<noteq> 1) (rows (searches exSearches))
                  = [exSearch 4 2 ''q5'' 35]"
    by (simp add: exSearches_def exSearch_def exPeople_def emptyDb_def emptyTable_def)
  have next8: "nextId (searches exSearches) = 8"
    by (simp add: exSearches_def exPeople_def emptyDb_def emptyTable_def)
  have h0: "status (fst (searchBlogs exOrder exSearches 100 1 ''q5'' ())) = 200"
    by (simp add: exSearches_def exSearch_def exPeople_def emptyDb_def emptyTable_def
          exOrder_def searchBlogs_def findMany_def findFirst_def delete_def create_def
          reply_def Let_def)
  have h1: "createdAtDesc exOrder
              (filter (\<lambda>s. searches_userId s = 1) (rows (searches exSearches)))"
    unfolding createdAtDesc_def M ord by (simp add: exSearch_def)
  have h2: "distinct (map searches_id (rows (searches exSearches)))"
    by (simp add: exSearches_def exSearch_def exPeople_def emptyDb_def emptyTable_def)
  have h3: "\<forall>s \<in> set (rows (searches exSearches)). searches_id s < nextId (searches exSearches)"
    by (simp add: exSearches_def exSearch_def exPeople_def emptyDb_def emptyTable_def)
  have h4: "distinct (map searches_content
                  (filter (\<lambda>s. searches_userId s = 1) (rows (searches exSearches))))"
    unfolding M by (simp add: exSearch_def)
  note t = searchBlogs_recent [where d = exSearches and me = 1 and orderBy = exOrder
             and now = 100 and query = "''q5''" and found = "()", THEN mp, OF conjI [OF h0 h1]]
  note a = t [THEN conjunct1]
  note c = t [THEN conjunct2, THEN conjunct2, THEN conjunct1, THEN mp, OF h4]
  note n = t [THEN conjunct2, THEN conjunct2, THEN conjunct2, THEN conjunct1, unfolded next8]
  note inv = t [THEN conjunct2, THEN conjunct2, THEN conjunct2, THEN conjunct2, THEN mp,
                OF conjI [OF h2 h3]]
  note o = inv [THEN conjunct1, unfolded others]
  note e = inv [THEN conjunct2, THEN conjunct2, THEN conjunct2, THEN conjunct2, THEN mp, OF h4,
                unfolded M ord next8]
  from e have e': "filter (\<lambda>s. searches_userId s = 1)
        (rows (searches (snd (searchBlogs exOrder exSearches 100 1 ''q5'' ()))))
       = [exSearch 3 1 ''q3'' 30, exSearch 5 1 ''q4'' 40, exSearch 7 1 ''q6'' 60,
          exSearch 8 1 ''q5'' 100]"
    by (simp add: exSearch_def)
  from n have n': "nextId (searches (snd (searchBlogs exOrder exSearches 100 1 ''q5'' ()))) = 9"
    by simp
  from h3 have h3': "list_all (\<lambda>s. searches_id s < nextId (searches exSearches))
                       (rows (searches exSearches))"
    by (simp add: list_all_iff)
  show ?thesis
    by (intro conjI h0 h1 h2 h3' h4 a e' o n' c)
qed

end
